theory Spec2Isabelle
  imports Main "HOL-Library.Word" "HOL-Library.Sublist"
begin

section \<open>The QGroundControl downlink sender (QGCLink::QGCSend)\<close>

text \<open>
  A shallow embedding of \<^verbatim>\<open>src/drivers/qgclink/QGCSend.cc\<close>: the rate test
  \<^verbatim>\<open>should_run\<close>, the encoders that push packets on the send queue, the body of the
  \<^verbatim>\<open>while(true)\<close> loop of \<^verbatim>\<open>send()\<close> with its flush, and the constructors and the
  assignment operator of the class.

  The MAVLink codec is outside this translation unit. A packet is therefore the message
  as it is handed to the codec: the \<^verbatim>\<open>mavlink_msg_*_pack\<close> call that built it, with the
  arguments this file passes. A \<^verbatim>\<open>std::queue\<close> is a list whose head is \<^verbatim>\<open>front()\<close>;
  \<^verbatim>\<open>push\<close> appends at the end and \<^verbatim>\<open>pop\<close> removes the head.
\<close>

subsection \<open>Integer arithmetic of the source language\<close>

text \<open>
  \<^verbatim>\<open>int\<close> is 32 bits wide. Division and remainder truncate towards zero; dividing by
  zero, and dividing the least value by \<open>-1\<close>, have no defined result.
\<close>

definition INT_MIN :: int where
  "INT_MIN = - (2 ^ 31)"

definition int_div :: "int \<Rightarrow> int \<Rightarrow> int option" where
  "int_div a b =
     (if b = 0 \<or> (a = INT_MIN \<and> b = - 1) then None
      else Some (sgn a * sgn b * (\<bar>a\<bar> div \<bar>b\<bar>)))"

definition int_mod :: "int \<Rightarrow> int \<Rightarrow> int option" where
  "int_mod a b =
     (if b = 0 \<or> (a = INT_MIN \<and> b = - 1) then None
      else Some (sgn a * (\<bar>a\<bar> mod \<bar>b\<bar>)))"

subsection \<open>The rate test\<close>

text \<open>
  \<^verbatim>\<open>
  bool QGCLink::QGCSend::should_run(int stream_rate, int send_rate, int count)
  {
      if (stream_rate == 0 || stream_rate > send_rate)
          return false;
      return count%(send_rate/stream_rate) == 0;
  }
  \<close>
  \<open>None\<close> is the undefined division or remainder.
\<close>

definition should_run :: "int \<Rightarrow> int \<Rightarrow> int \<Rightarrow> bool option" where
  "should_run stream_rate send_rate count =
     (if stream_rate = 0 \<or> stream_rate > send_rate then Some False
      else case int_div send_rate stream_rate of
             None \<Rightarrow> None
           | Some period \<Rightarrow>
               (case int_mod count period of
                  None \<Rightarrow> None
                | Some rem \<Rightarrow> Some (rem = 0)))"

subsection \<open>Mode enumerations and their wire codes\<close>

text \<open>
  Modelled from the spec: the enum declarations (\<^verbatim>\<open>heli.h\<close>, \<^verbatim>\<open>IMU.h\<close>) are not under
  src. The enumerators are the ones QGCSend.cc names; the counting enumerator
  (\<^verbatim>\<open>NUM_...\<close>) is the value the constructor stores as "unset"; the \<open>Unlisted\<close>
  constructor stands for any enumerator the header declares and this file never names.
\<close>

datatype AUTOPILOT_MODE =
    MODE_DIRECT_MANUAL | MODE_SCALED_MANUAL | MODE_AUTOMATIC_CONTROL
  | Unlisted_AUTOPILOT_MODE nat | NUM_AUTOPILOT_MODES

datatype PILOT_MODE =
    PILOT_MANUAL | PILOT_AUTO | Unlisted_PILOT_MODE nat | NUM_PILOT_MODES

datatype GX3_MODE =
    STARTUP | INIT | RUNNING | ERROR | Unlisted_GX3_MODE nat | NUM_GX3_MODES

datatype Controller_Mode =
    Mode_Attitude_Stabilization_PID | Mode_Position_Hold_PID | Mode_Position_Hold_SBF
  | Unlisted_Controller_Mode nat | Num_Controller_Modes

datatype Trajectory_Type =
    Point_Trajectory | Line_Trajectory | Circle_Trajectory | Unlisted_Trajectory_Type nat

text \<open>
  Modelled from the spec: the numeric values of the dialect constants
  (\<^verbatim>\<open>::UALBERTA_...\<close>, from the generated MAVLink header) are not under src, so they
  stay symbolic. A \<^verbatim>\<open>uint8_t\<close> wire field of the status message holds either such a
  constant or the literal 255 it was initialised with, the reserved "unknown" code.
\<close>

datatype UALBERTA =
    UALBERTA_MODE_MANUAL_DIRECT | UALBERTA_MODE_MANUAL_SCALED | UALBERTA_MODE_AUTOMATIC_CONTROL
  | UALBERTA_PILOT_MANUAL | UALBERTA_PILOT_AUTO
  | UALBERTA_POINT | UALBERTA_LINE | UALBERTA_CIRCLE
  | UALBERTA_GX3_STARTUP | UALBERTA_GX3_INIT | UALBERTA_GX3_RUNNING_VALID
  | UALBERTA_GX3_RUNNING_ERROR
  | UALBERTA_ATTITUDE_PID | UALBERTA_TRANSLATION_PID | UALBERTA_TRANSLATION_SBF
  | UALBERTA_NAV_FILTER | UALBERTA_AHRS

datatype wire_code = Dialect UALBERTA | Literal_255

subsection \<open>Packets\<close>

type_synonym float_bits = "32 word"
type_synonym double_bits = "64 word"
type_synonym mavlink_message_t = "8 word list"

text \<open>
  Modelled from the spec: class \<^verbatim>\<open>Parameter\<close> is declared outside src; it offers
  \<^verbatim>\<open>getCompID()\<close>, \<^verbatim>\<open>getParamID()\<close> and \<^verbatim>\<open>getValue()\<close> (component id, short name,
  float value).
\<close>

datatype Parameter = Parameter (getCompID: nat) (getParamID: string) (getValue: float_bits)

record sys_status =
  status_system :: nat
  qgc_servo_source :: wire_code
  qgc_filter_state :: wire_code
  qgc_pilot_mode :: wire_code
  qgc_control_mode :: wire_code
  qgc_attitude_source :: wire_code
  status_engine_rpm :: nat
  status_rotor_rpm :: nat
  status_collective :: double_bits
  qgc_trajectory :: wire_code

record param_value =
  param_system :: nat
  param_component :: nat
  param_id :: string
  param_float :: float_bits
  param_count :: int
  param_index :: int

datatype packet =
    HEARTBEAT
  | UALBERTA_SYS_STATUS sys_status
  | PARAM_VALUE param_value
  | RC_CHANNELS_RAW "16 word list"
  | RC_CHANNELS_SCALED "16 word list"
  | UALBERTA_CONTROL_EFFORT nat "float_bits list"
  | RADIO_CALIBRATION nat "16 word list list"
  | DRIVER_MESSAGE mavlink_message_t
  | STATUSTEXT nat nat string

subsection \<open>The transport\<close>

text \<open>
  \<^verbatim>\<open>qgc->socket.send_to(...)\<close> either hands the datagram to the network or throws
  \<^verbatim>\<open>boost::system::system_error\<close>. The socket carries a script with the outcome of each
  coming call (\<open>None\<close>: the call succeeds; an exhausted script: every call succeeds), the
  datagrams it has sent, and every packet a call was attempted with.
\<close>

datatype system_error = System_error string

fun what :: "system_error \<Rightarrow> string" where
  "what (System_error msg) = msg"

record udp_socket =
  sent :: "packet list"
  attempted :: "packet list"
  script :: "system_error option list"

definition send_to :: "udp_socket \<Rightarrow> packet \<Rightarrow> system_error option \<times> udp_socket" where
  "send_to s p =
     (case script s of
        [] \<Rightarrow> (None, s\<lparr>sent := sent s @ [p], attempted := attempted s @ [p]\<rparr>)
      | None # rest \<Rightarrow>
          (None, s\<lparr>sent := sent s @ [p], attempted := attempted s @ [p], script := rest\<rparr>)
      | Some e # rest \<Rightarrow>
          (Some e, s\<lparr>attempted := attempted s @ [p], script := rest\<rparr>))"

subsection \<open>The link object and the producers\<close>

text \<open>
  The fields of the parent \<^verbatim>\<open>QGCLink\<close> that \<^verbatim>\<open>send()\<close> reads or writes. The three rates
  are what \<^verbatim>\<open>get_heartbeat_rate()\<close>, \<^verbatim>\<open>get_rc_channel_rate()\<close> and
  \<^verbatim>\<open>get_control_output_rate()\<close> return; \<open>warnings\<close> is what was written to
  \<^verbatim>\<open>qgc->warning()\<close>.
\<close>

record QGCLink =
  uasId :: nat
  heartbeat_rate :: int
  rc_channel_rate :: int
  control_output_rate :: int
  param_recv :: bool
  requested_params :: "Parameter list"
  requested_rc_calibration :: bool
  socket :: udp_socket
  warnings :: "string list"

text \<open>
  What the other singletons return when \<^verbatim>\<open>send()\<close> asks them during one iteration. A
  driver is its \<^verbatim>\<open>sendMavlinkMsg(msgs, uasId, send_rate, loop_count)\<close>: the messages it
  appends to \<open>msgs\<close>.

  Modelled from the spec: \<^verbatim>\<open>servo_switch::getRaw()\<close> and \<^verbatim>\<open>RCTrans::getScaledArray()\<close>
  are not under src. The raw vector is read at the indices 0 to 7 without a bounds check,
  so it is taken as the map from a channel index to its value; the scaled array is read
  at the six channel enumerators of \<^verbatim>\<open>RCTrans\<close>, so it is the map from a channel to its
  value.

  The last two fields are not producers. They stand for the two floating-point
  conversions the encoders apply, which this embedding takes as given: the narrowing of
  a \<^verbatim>\<open>double\<close> to \<^verbatim>\<open>float\<close>, and \<^verbatim>\<open>static_cast<int16_t>(x*1e4)\<close>.
\<close>

datatype RCTrans_channel = AILERON | ELEVATOR | THROTTLE | RUDDER | GYRO | PITCH

type_synonym driver = "nat \<Rightarrow> int \<Rightarrow> int \<Rightarrow> mavlink_message_t list"

record producers =
  switch_pilot_mode :: PILOT_MODE
  switch_raw :: "nat \<Rightarrow> 16 word"
  switch_engine_rpm :: nat
  switch_main_rotor_rpm :: nat
  rctrans_scaled :: "RCTrans_channel \<Rightarrow> double_bits"
  controller_mode :: Controller_Mode
  trajectory_type :: Trajectory_Type
  control_effort :: "double_bits list"
  control_parameters :: "Parameter list"
  helicopter_parameters :: "Parameter list"
  main_collective :: double_bits
  radio_calibration :: "16 word list list"
  drivers :: "driver list"
  narrow_to_float :: "double_bits \<Rightarrow> float_bits"
  scaled_to_int16 :: "double_bits \<Rightarrow> 16 word"

subsection \<open>The sender object\<close>

text \<open>
  \<open>send_queue\<close> is the pointer member: the address of a queue in the store.
  \<open>attitude_source_connection\<close> tells whether the member connection is connected.
\<close>

record QGCSend =
  qgc :: "nat option"
  servo_source :: AUTOPILOT_MODE
  pilot_mode :: PILOT_MODE
  filter_state :: GX3_MODE
  control_mode :: Controller_Mode
  attitude_source :: bool
  startTime :: nat
  send_queue :: nat
  message_queue :: "string list"
  attitude_source_connection :: bool

text \<open>
  Modelled from the spec: the getters, the setters, \<^verbatim>\<open>message_queue_push\<close> and
  \<^verbatim>\<open>message_queue_empty\<close> are defined in QGCSend.h, which is not under src: one getter
  and exactly one setter per field, \<open>push\<close> appends to the mailbox.
\<close>

definition get_servo_source :: "QGCSend \<Rightarrow> AUTOPILOT_MODE" where
  "get_servo_source this = servo_source this"

definition get_pilot_mode :: "QGCSend \<Rightarrow> PILOT_MODE" where
  "get_pilot_mode this = pilot_mode this"

definition get_filter_state :: "QGCSend \<Rightarrow> GX3_MODE" where
  "get_filter_state this = filter_state this"

definition get_control_mode :: "QGCSend \<Rightarrow> Controller_Mode" where
  "get_control_mode this = control_mode this"

definition get_attitude_source :: "QGCSend \<Rightarrow> bool" where
  "get_attitude_source this = attitude_source this"

definition set_servo_source :: "AUTOPILOT_MODE \<Rightarrow> QGCSend \<Rightarrow> QGCSend" where
  "set_servo_source v this = this\<lparr>servo_source := v\<rparr>"

definition set_pilot_mode :: "PILOT_MODE \<Rightarrow> QGCSend \<Rightarrow> QGCSend" where
  "set_pilot_mode v this = this\<lparr>pilot_mode := v\<rparr>"

definition set_filter_state :: "GX3_MODE \<Rightarrow> QGCSend \<Rightarrow> QGCSend" where
  "set_filter_state v this = this\<lparr>filter_state := v\<rparr>"

definition set_control_mode :: "Controller_Mode \<Rightarrow> QGCSend \<Rightarrow> QGCSend" where
  "set_control_mode v this = this\<lparr>control_mode := v\<rparr>"

definition set_attitude_source :: "bool \<Rightarrow> QGCSend \<Rightarrow> QGCSend" where
  "set_attitude_source v this = this\<lparr>attitude_source := v\<rparr>"

definition message_queue_push :: "string \<Rightarrow> QGCSend \<Rightarrow> QGCSend" where
  "message_queue_push message this = this\<lparr>message_queue := message_queue this @ [message]\<rparr>"

definition message_queue_empty :: "QGCSend \<Rightarrow> bool" where
  "message_queue_empty this = (message_queue this = [])"

text \<open>
  \<^verbatim>\<open>message_queue_pop()\<close> copies \<^verbatim>\<open>front()\<close> and pops it. On an empty queue
  \<^verbatim>\<open>front()\<close> is undefined; the only caller tests \<^verbatim>\<open>message_queue_empty()\<close> first.
\<close>

definition message_queue_pop :: "QGCSend \<Rightarrow> (string \<times> QGCSend) option" where
  "message_queue_pop this =
     (case message_queue this of
        [] \<Rightarrow> None
      | message # rest \<Rightarrow> Some (message, this\<lparr>message_queue := rest\<rparr>))"

subsection \<open>Construction, copy and assignment\<close>

text \<open>
  Objects and the queues allocated with \<^verbatim>\<open>new\<close> live in a store. \<open>next_queue\<close> is the
  allocation frontier: \<^verbatim>\<open>new\<close> returns it and advances it, so every address below it
  is allocated and every address from it on is free.
\<close>

record memory =
  objects :: "nat \<Rightarrow> QGCSend"
  queues :: "nat \<Rightarrow> packet list"
  next_queue :: nat

definition new_queue :: "packet list \<Rightarrow> memory \<Rightarrow> nat \<times> memory" where
  "new_queue content m =
     (next_queue m,
      m\<lparr>queues := (queues m)(next_queue m := content), next_queue := Suc (next_queue m)\<rparr>)"

text \<open>
  \<^verbatim>\<open>QGCSend(QGCLink* parent)\<close>, building the object at address \<open>this\<close>; \<open>now\<close> is what
  the clock returns.
\<close>

definition QGCSend_ctor :: "nat \<Rightarrow> nat option \<Rightarrow> nat \<Rightarrow> memory \<Rightarrow> memory" where
  "QGCSend_ctor this parent now m =
     (let (q, m') = new_queue [] m
      in m'\<lparr>objects := (objects m')(this :=
           \<lparr>qgc = parent,
            servo_source = NUM_AUTOPILOT_MODES,
            pilot_mode = NUM_PILOT_MODES,
            filter_state = NUM_GX3_MODES,
            control_mode = Num_Controller_Modes,
            attitude_source = True,
            startTime = now,
            send_queue = q,
            message_queue = [],
            attitude_source_connection = False\<rparr>)\<rparr>)"

text \<open>
  \<^verbatim>\<open>QGCSend(const QGCSend& other)\<close>. The members that are not named (the mailbox, the
  connection) are default-constructed.
\<close>

definition QGCSend_copy_ctor :: "nat \<Rightarrow> nat \<Rightarrow> memory \<Rightarrow> memory" where
  "QGCSend_copy_ctor this other m =
     (let src = objects m other;
          (q, m') = new_queue (queues m (send_queue src)) m
      in m'\<lparr>objects := (objects m')(this :=
           \<lparr>qgc = qgc src,
            servo_source = get_servo_source src,
            pilot_mode = get_pilot_mode src,
            filter_state = get_filter_state src,
            control_mode = get_control_mode src,
            attitude_source = get_attitude_source src,
            startTime = startTime src,
            send_queue = q,
            message_queue = [],
            attitude_source_connection = False\<rparr>)\<rparr>)"

text \<open>\<^verbatim>\<open>operator=\<close>: nothing on self-assignment, else the five cached modes.\<close>

definition operator_assign :: "nat \<Rightarrow> nat \<Rightarrow> memory \<Rightarrow> memory" where
  "operator_assign this other m =
     (if this = other then m
      else let src = objects m other
           in m\<lparr>objects := (objects m)(this :=
                (objects m this)
                  \<lparr>servo_source := get_servo_source src,
                   pilot_mode := get_pilot_mode src,
                   filter_state := get_filter_state src,
                   control_mode := get_control_mode src,
                   attitude_source := get_attitude_source src\<rparr>)\<rparr>)"

subsection \<open>Encoders\<close>

definition send_heartbeat :: "packet list \<Rightarrow> packet list" where
  "send_heartbeat sendq = sendq @ [HEARTBEAT]"

definition servo_source_code :: "AUTOPILOT_MODE \<Rightarrow> wire_code" where
  "servo_source_code m =
     (case m of
        MODE_DIRECT_MANUAL \<Rightarrow> Dialect UALBERTA_MODE_MANUAL_DIRECT
      | MODE_SCALED_MANUAL \<Rightarrow> Dialect UALBERTA_MODE_MANUAL_SCALED
      | MODE_AUTOMATIC_CONTROL \<Rightarrow> Dialect UALBERTA_MODE_AUTOMATIC_CONTROL
      | _ \<Rightarrow> Literal_255)"

definition pilot_mode_code :: "PILOT_MODE \<Rightarrow> wire_code" where
  "pilot_mode_code m =
     (case m of
        PILOT_MANUAL \<Rightarrow> Dialect UALBERTA_PILOT_MANUAL
      | PILOT_AUTO \<Rightarrow> Dialect UALBERTA_PILOT_AUTO
      | _ \<Rightarrow> Literal_255)"

definition trajectory_code :: "Trajectory_Type \<Rightarrow> wire_code" where
  "trajectory_code t =
     (case t of
        Point_Trajectory \<Rightarrow> Dialect UALBERTA_POINT
      | Line_Trajectory \<Rightarrow> Dialect UALBERTA_LINE
      | Circle_Trajectory \<Rightarrow> Dialect UALBERTA_CIRCLE
      | _ \<Rightarrow> Literal_255)"

definition filter_state_code :: "GX3_MODE \<Rightarrow> wire_code" where
  "filter_state_code m =
     (case m of
        STARTUP \<Rightarrow> Dialect UALBERTA_GX3_STARTUP
      | INIT \<Rightarrow> Dialect UALBERTA_GX3_INIT
      | RUNNING \<Rightarrow> Dialect UALBERTA_GX3_RUNNING_VALID
      | ERROR \<Rightarrow> Dialect UALBERTA_GX3_RUNNING_ERROR
      | _ \<Rightarrow> Literal_255)"

definition control_mode_code :: "Controller_Mode \<Rightarrow> wire_code" where
  "control_mode_code m =
     (case m of
        Mode_Attitude_Stabilization_PID \<Rightarrow> Dialect UALBERTA_ATTITUDE_PID
      | Mode_Position_Hold_PID \<Rightarrow> Dialect UALBERTA_TRANSLATION_PID
      | Mode_Position_Hold_SBF \<Rightarrow> Dialect UALBERTA_TRANSLATION_SBF
      | _ \<Rightarrow> Literal_255)"

text \<open>
  \<^verbatim>\<open>send_status\<close>: the five switch statements in source order. The local
  \<open>pilot\<close> is the cached value, replaced by a call to
  \<^verbatim>\<open>servo_switch::getInstance()->get_pilot_mode()\<close> when it is \<^verbatim>\<open>NUM_PILOT_MODES\<close>.
\<close>

definition send_status :: "producers \<Rightarrow> QGCLink \<Rightarrow> QGCSend \<Rightarrow> packet list \<Rightarrow> packet list" where
  "send_status env lnk this sendq =
     (let servo = get_servo_source this;
          pilot = get_pilot_mode this;
          pilot = (if pilot = NUM_PILOT_MODES then switch_pilot_mode env else pilot);
          trajectory = trajectory_type env;
          filt = get_filter_state this;
          control = get_control_mode this
      in sendq @
         [UALBERTA_SYS_STATUS
            \<lparr>status_system = uasId lnk,
             qgc_servo_source = servo_source_code servo,
             qgc_filter_state = filter_state_code filt,
             qgc_pilot_mode = pilot_mode_code pilot,
             qgc_control_mode = control_mode_code control,
             qgc_attitude_source =
               (if get_attitude_source this then Dialect UALBERTA_NAV_FILTER
                else Dialect UALBERTA_AHRS),
             status_engine_rpm = switch_engine_rpm env,
             status_rotor_rpm = switch_main_rotor_rpm env,
             status_collective = main_collective env,
             qgc_trajectory = trajectory_code trajectory\<rparr>])"

text \<open>
  \<^verbatim>\<open>send_param\<close>. The first loop adds the sizes up; the nested loops walk the sources
  in order with a running index. The component id goes through the \<^verbatim>\<open>(uint8_t)\<close> cast.
\<close>

fun count_params :: "Parameter list list \<Rightarrow> int \<Rightarrow> int" where
  "count_params [] num_params = num_params"
| "count_params (ps # plist) num_params = count_params plist (num_params + int (length ps))"

fun send_param_items ::
  "nat \<Rightarrow> int \<Rightarrow> Parameter list \<Rightarrow> int \<Rightarrow> packet list \<Rightarrow> int \<times> packet list" where
  "send_param_items uas num_params [] index sendq = (index, sendq)"
| "send_param_items uas num_params (p # ps) index sendq =
     send_param_items uas num_params ps (index + 1)
       (sendq @
        [PARAM_VALUE
           \<lparr>param_system = uas, param_component = getCompID p mod 256,
            param_id = getParamID p, param_float = getValue p,
            param_count = num_params, param_index = index\<rparr>])"

fun send_param_sources ::
  "nat \<Rightarrow> int \<Rightarrow> Parameter list list \<Rightarrow> int \<Rightarrow> packet list \<Rightarrow> int \<times> packet list" where
  "send_param_sources uas num_params [] index sendq = (index, sendq)"
| "send_param_sources uas num_params (ps # plist) index sendq =
     (case send_param_items uas num_params ps index sendq of
        (index', sendq') \<Rightarrow> send_param_sources uas num_params plist index' sendq')"

definition send_param :: "producers \<Rightarrow> QGCLink \<Rightarrow> packet list \<Rightarrow> packet list" where
  "send_param env lnk sendq =
     (let plist = [control_parameters env, helicopter_parameters env];
          num_params = count_params plist 0
      in snd (send_param_sources (uasId lnk) num_params plist 0 sendq))"

text \<open>
  \<^verbatim>\<open>send_requested_params\<close>: the loop runs until \<^verbatim>\<open>qgc->requested_params\<close> is empty and
  returns what is left of it together with the send queue.
\<close>

fun send_requested_params_loop ::
  "nat \<Rightarrow> Parameter list \<Rightarrow> packet list \<Rightarrow> Parameter list \<times> packet list" where
  "send_requested_params_loop uas [] sendq = ([], sendq)"
| "send_requested_params_loop uas (p # rest) sendq =
     send_requested_params_loop uas rest
       (sendq @
        [PARAM_VALUE
           \<lparr>param_system = uas, param_component = getCompID p,
            param_id = getParamID p, param_float = getValue p,
            param_count = 1, param_index = - 1\<rparr>])"

definition send_requested_params :: "QGCLink \<Rightarrow> packet list \<Rightarrow> QGCLink \<times> packet list" where
  "send_requested_params lnk sendq =
     (case send_requested_params_loop (uasId lnk) (requested_params lnk) sendq of
        (rest, sendq') \<Rightarrow> (lnk\<lparr>requested_params := rest\<rparr>, sendq'))"

definition send_rc_calibration :: "producers \<Rightarrow> QGCLink \<Rightarrow> packet list \<Rightarrow> packet list" where
  "send_rc_calibration env lnk sendq =
     sendq @ [RADIO_CALIBRATION (uasId lnk) (radio_calibration env)]"

text \<open>
  \<^verbatim>\<open>send_rc_channels\<close> pushes two packets. The first carries \<^verbatim>\<open>raw[0]\<close> to
  \<^verbatim>\<open>raw[7]\<close>; the second carries the six scaled channels in the order aileron,
  elevator, throttle, rudder, gyro, pitch, each multiplied by \<^verbatim>\<open>1e4\<close> and cast to
  \<^verbatim>\<open>int16_t\<close>, and zero for the channels 7 and 8. The constant arguments of the two
  calls (system 100, component 200, time 0, port 0, rssi 0) are left out of the packets.
\<close>

definition send_rc_channels :: "producers \<Rightarrow> packet list \<Rightarrow> packet list" where
  "send_rc_channels env sendq =
     (let raw = switch_raw env;
          sendq = sendq @
            [RC_CHANNELS_RAW [raw 0, raw 1, raw 2, raw 3, raw 4, raw 5, raw 6, raw 7]];
          scaled = rctrans_scaled env
      in sendq @
         [RC_CHANNELS_SCALED
            [scaled_to_int16 env (scaled AILERON),
             scaled_to_int16 env (scaled ELEVATOR),
             scaled_to_int16 env (scaled THROTTLE),
             scaled_to_int16 env (scaled RUDDER),
             scaled_to_int16 env (scaled GYRO),
             scaled_to_int16 env (scaled PITCH),
             0, 0]])"

text \<open>
  \<^verbatim>\<open>send_control_effort\<close> copies the control effort into a vector of \<^verbatim>\<open>float\<close>,
  narrowing every element, and hands that vector to the codec.
\<close>

definition send_control_effort :: "producers \<Rightarrow> QGCLink \<Rightarrow> packet list \<Rightarrow> packet list" where
  "send_control_effort env lnk sendq =
     (let effort = control_effort env;
          control = map (narrow_to_float env) effort
      in sendq @ [UALBERTA_CONTROL_EFFORT (uasId lnk) control])"

text \<open>
  \<^verbatim>\<open>std::string::resize(n)\<close> cuts the string to \<open>n\<close> characters or fills it up with
  NUL characters.
\<close>

definition resize :: "nat \<Rightarrow> string \<Rightarrow> string" where
  "resize n s = (if n \<le> length s then take n s else s @ replicate (n - length s) (CHR 0x00))"

definition send_console_message :: "QGCLink \<Rightarrow> string \<Rightarrow> packet list \<Rightarrow> packet list" where
  "send_console_message lnk message sendq =
     (let console = resize 50 message
      in sendq @
         [STATUSTEXT (uasId lnk) (if prefix ''Critical'' console then 255 else 0) console])"

text \<open>The two loops over the drivers and over the messages of one driver.\<close>

fun push_messages :: "mavlink_message_t list \<Rightarrow> packet list \<Rightarrow> packet list" where
  "push_messages [] sendq = sendq"
| "push_messages (msg # msgs) sendq = push_messages msgs (sendq @ [DRIVER_MESSAGE msg])"

fun send_driver_messages ::
  "driver list \<Rightarrow> nat \<Rightarrow> int \<Rightarrow> int \<Rightarrow> packet list \<Rightarrow> packet list" where
  "send_driver_messages [] uas send_rate loop_count sendq = sendq"
| "send_driver_messages (d # ds) uas send_rate loop_count sendq =
     send_driver_messages ds uas send_rate loop_count
       (push_messages (d uas send_rate loop_count) sendq)"

subsection \<open>The dispatch loop\<close>

text \<open>
  The state of a running \<^verbatim>\<open>send()\<close>: the object, the queue its \<open>send_queue\<close> pointer
  designates (\<^verbatim>\<open>send()\<close> reaches no other queue), the link and the local
  \<^verbatim>\<open>loop_count\<close>.
\<close>

record dispatch =
  self :: QGCSend
  sendq :: "packet list"
  link :: QGCLink
  count :: int

definition send_rate :: int where
  "send_rate = 200"

text \<open>
  Modelled from the spec: \<^verbatim>\<open>QGCLink::getInstance()\<close> is not under src. It returns the
  address of the one link object; which address that is plays no role.
\<close>

definition QGCLink_getInstance :: nat where
  "QGCLink_getInstance = 0"

text \<open>
  The statements of \<^verbatim>\<open>send()\<close> before the loop: the null test of the link pointer,
  the two direct queries for the initial modes, then the subscriptions, of which the
  object keeps the one for the attitude source. \<open>lnk\<close> is the link object.
\<close>

definition send_enter :: "producers \<Rightarrow> QGCLink \<Rightarrow> nat \<Rightarrow> memory \<Rightarrow> dispatch" where
  "send_enter env lnk this m =
     (let obj = objects m this;
          obj = (if qgc obj = None then obj\<lparr>qgc := Some QGCLink_getInstance\<rparr> else obj);
          obj = obj\<lparr>pilot_mode := switch_pilot_mode env\<rparr>;
          obj = obj\<lparr>control_mode := controller_mode env\<rparr>;
          obj = obj\<lparr>attitude_source_connection := True\<rparr>
      in \<lparr>self = obj, sendq = queues m (send_queue obj), link = lnk, count = 0\<rparr>)"

datatype abort = Undefined_arithmetic

text \<open>
  The \<^verbatim>\<open>try\<close> block: the loop sends the front packet and pops it only after
  \<^verbatim>\<open>send_to\<close> has returned. It yields the exception that ended it, if any.
\<close>

fun flush_loop ::
  "udp_socket \<Rightarrow> packet list \<Rightarrow> system_error option \<times> udp_socket \<times> packet list" where
  "flush_loop s [] = (None, s, [])"
| "flush_loop s (p # q) =
     (case send_to s p of
        (Some e, s') \<Rightarrow> (Some e, s', p # q)
      | (None, s') \<Rightarrow> flush_loop s' q)"

text \<open>
  The \<^verbatim>\<open>try\<close> statement with its handler, which writes \<^verbatim>\<open>e.what()\<close> to the warning
  stream. The first component is the exception that leaves the statement.

  Modelled from the spec: \<^verbatim>\<open>QGCLink::warning()\<close> is not under src. By section 6 of the
  specification the diagnostic sink is a fire-and-forget output and not part of the
  sender's own mailbox, so a warning is recorded in \<open>warnings\<close> and nowhere else.
\<close>

definition flush :: "dispatch \<Rightarrow> system_error option \<times> dispatch" where
  "flush st =
     (case flush_loop (socket (link st)) (sendq st) of
        (None, s', q') \<Rightarrow> (None, st\<lparr>sendq := q', link := (link st)\<lparr>socket := s'\<rparr>\<rparr>)
      | (Some e, s', q') \<Rightarrow>
          (None, st\<lparr>sendq := q',
                    link := (link st)\<lparr>socket := s', warnings := warnings (link st) @ [what e]\<rparr>\<rparr>))"

text \<open>
  The loop body, statement by statement. Each definition is one statement of the body
  of \<^verbatim>\<open>while(true)\<close>, in source order; a rate test whose arithmetic is undefined ends
  the pass.
\<close>

definition and_then :: "abort + 'a \<Rightarrow> ('a \<Rightarrow> abort + 'b) \<Rightarrow> abort + 'b" where
  "and_then r f = (case r of Inl a \<Rightarrow> Inl a | Inr x \<Rightarrow> f x)"

text \<open>
  \<^verbatim>\<open>
  if (should_run(qgc->get_heartbeat_rate(), send_rate, loop_count))
  {
      send_heartbeat(send_queue);
      send_status(send_queue);
  }
  \<close>
\<close>

definition status_statement :: "producers \<Rightarrow> dispatch \<Rightarrow> abort + dispatch" where
  "status_statement env st =
     (case should_run (heartbeat_rate (link st)) send_rate (count st) of
        None \<Rightarrow> Inl Undefined_arithmetic
      | Some run \<Rightarrow>
          Inr (if run
               then st\<lparr>sendq := send_status env (link st) (self st) (send_heartbeat (sendq st))\<rparr>
               else st))"

text \<open>
  \<^verbatim>\<open>
  bool param_recv = qgc->param_recv;
  qgc->param_recv = false;
  if(param_recv)
      send_param(send_queue);
  \<close>
\<close>

definition param_statement :: "producers \<Rightarrow> dispatch \<Rightarrow> abort + dispatch" where
  "param_statement env st =
     (let recv = param_recv (link st);
          st = st\<lparr>link := (link st)\<lparr>param_recv := False\<rparr>\<rparr>
      in Inr (if recv then st\<lparr>sendq := send_param env (link st) (sendq st)\<rparr> else st))"

definition rc_statement :: "producers \<Rightarrow> dispatch \<Rightarrow> abort + dispatch" where
  "rc_statement env st =
     (case should_run (rc_channel_rate (link st)) send_rate (count st) of
        None \<Rightarrow> Inl Undefined_arithmetic
      | Some run \<Rightarrow>
          Inr (if run then st\<lparr>sendq := send_rc_channels env (sendq st)\<rparr> else st))"

definition effort_statement :: "producers \<Rightarrow> dispatch \<Rightarrow> abort + dispatch" where
  "effort_statement env st =
     (case should_run (control_output_rate (link st)) send_rate (count st) of
        None \<Rightarrow> Inl Undefined_arithmetic
      | Some run \<Rightarrow>
          Inr (if run then st\<lparr>sendq := send_control_effort env (link st) (sendq st)\<rparr> else st))"

text \<open>
  \<^verbatim>\<open>
  if (!qgc->requested_params.empty())
      send_requested_params(send_queue);
  \<close>
\<close>

definition requested_statement :: "dispatch \<Rightarrow> abort + dispatch" where
  "requested_statement st =
     Inr (if requested_params (link st) \<noteq> []
          then (case send_requested_params (link st) (sendq st) of
                  (lnk, q) \<Rightarrow> st\<lparr>sendq := q, link := lnk\<rparr>)
          else st)"

text \<open>
  \<^verbatim>\<open>
  if (qgc->get_requested_rc_calibration())
  {
      send_rc_calibration(send_queue);
      qgc->clear_requested_rc_calibration();
  }
  \<close>
\<close>

definition calibration_statement :: "producers \<Rightarrow> dispatch \<Rightarrow> abort + dispatch" where
  "calibration_statement env st =
     Inr (if requested_rc_calibration (link st)
          then st\<lparr>sendq := send_rc_calibration env (link st) (sendq st),
                  link := (link st)\<lparr>requested_rc_calibration := False\<rparr>\<rparr>
          else st)"

definition driver_statement :: "producers \<Rightarrow> dispatch \<Rightarrow> abort + dispatch" where
  "driver_statement env st =
     Inr (st\<lparr>sendq := send_driver_messages (drivers env) (uasId (link st)) send_rate
                        (count st) (sendq st)\<rparr>)"

text \<open>
  \<^verbatim>\<open>
  if (!message_queue_empty()) //only send max one message per iteration
      send_console_message(message_queue_pop(), send_queue);
  \<close>
\<close>

definition console_statement :: "dispatch \<Rightarrow> abort + dispatch" where
  "console_statement st =
     Inr (if \<not> message_queue_empty (self st)
          then (case message_queue_pop (self st) of
                  None \<Rightarrow> st
                | Some (message, this) \<Rightarrow>
                    st\<lparr>self := this,
                       sendq := send_console_message (link st) message (sendq st)\<rparr>)
          else st)"

text \<open>Everything of the pass that pushes on the send queue, from top to bottom.\<close>

definition enqueue :: "producers \<Rightarrow> dispatch \<Rightarrow> abort + dispatch" where
  "enqueue env st =
     and_then (status_statement env st) (\<lambda>st.
     and_then (param_statement env st) (\<lambda>st.
     and_then (rc_statement env st) (\<lambda>st.
     and_then (effort_statement env st) (\<lambda>st.
     and_then (requested_statement st) (\<lambda>st.
     and_then (calibration_statement env st) (\<lambda>st.
     and_then (driver_statement env st) (\<lambda>st.
     console_statement st)))))))"

text \<open>
  The packets one pass pushes, stream by stream in the order of the statements of the
  loop body, given the outcome of the three rate tests. Each encoder is run on an empty
  queue to read off what it pushes.
\<close>

definition pushed :: "producers \<Rightarrow> dispatch \<Rightarrow> bool \<Rightarrow> bool \<Rightarrow> bool \<Rightarrow> packet list" where
  "pushed env st run_status run_rc run_effort =
     (if run_status then send_status env (link st) (self st) (send_heartbeat []) else []) @
     (if param_recv (link st) then send_param env (link st) [] else []) @
     (if run_rc then send_rc_channels env [] else []) @
     (if run_effort then send_control_effort env (link st) [] else []) @
     snd (send_requested_params (link st) []) @
     (if requested_rc_calibration (link st) then send_rc_calibration env (link st) [] else []) @
     send_driver_messages (drivers env) (uasId (link st)) send_rate (count st) [] @
     (case message_queue (self st) of
        [] \<Rightarrow> []
      | message # rest \<Rightarrow> send_console_message (link st) message [])"

text \<open>
  The precedence of the streams as section 3 of the specification lists it:
  status/heartbeat, full parameter dump, RC channels, control effort, single-parameter
  replies, calibration, per-driver messages, console text. A parameter packet belongs to
  a reply when its index is the sentinel \<open>-1\<close>, to the dump otherwise.
\<close>

fun stream_rank :: "packet \<Rightarrow> nat" where
  "stream_rank HEARTBEAT = 0"
| "stream_rank (UALBERTA_SYS_STATUS v) = 0"
| "stream_rank (PARAM_VALUE v) = (if param_index v = - 1 then 4 else 1)"
| "stream_rank (RC_CHANNELS_RAW v) = 2"
| "stream_rank (RC_CHANNELS_SCALED v) = 2"
| "stream_rank (UALBERTA_CONTROL_EFFORT uas v) = 3"
| "stream_rank (RADIO_CALIBRATION uas v) = 5"
| "stream_rank (DRIVER_MESSAGE msg) = 6"
| "stream_rank (STATUSTEXT uas severity text) = 7"

text \<open>
  One pass of the \<^verbatim>\<open>while(true)\<close> body: enqueue, flush, count. The pacing calls
  \<^verbatim>\<open>rl.wait()\<close> and \<^verbatim>\<open>rl.finishedCriticalSection()\<close> change nothing of the state.
  \<^verbatim>\<open>loop_count++\<close> is taken on the integers: the counter reaches the end of the
  \<^verbatim>\<open>int\<close> range only after \<open>2^31\<close> passes.
\<close>

definition send_iteration :: "producers \<Rightarrow> dispatch \<Rightarrow> abort + dispatch" where
  "send_iteration env st =
     (case enqueue env st of
        Inl a \<Rightarrow> Inl a
      | Inr st' \<Rightarrow>
          (case flush st' of (_, st'') \<Rightarrow> Inr (st''\<lparr>count := count st'' + 1\<rparr>)))"

text \<open>
  What happens while \<^verbatim>\<open>send()\<close> runs: a pass of the loop, a change notification
  reaching its setter through the connection made at the start of \<^verbatim>\<open>send()\<close>, a
  console text reaching the mailbox through the warning or critical signal, or the
  receiving side of the link latching a request or storing a new stream rate.

  Modelled from the spec: the code that sets \<^verbatim>\<open>param_recv\<close>, fills
  \<^verbatim>\<open>requested_params\<close>, latches the calibration request and stores the rates belongs to
  \<^verbatim>\<open>QGCLink\<close>, which is not under src: a request sets its latch or is appended to the
  request queue, a rate is stored as given.
\<close>

datatype event =
    Iteration producers
  | Servo_source_changed AUTOPILOT_MODE
  | Pilot_mode_changed PILOT_MODE
  | Gx3_mode_changed GX3_MODE
  | Control_mode_changed Controller_Mode
  | Attitude_source_changed bool
  | Console string
  | Param_list_requested
  | Param_requested Parameter
  | Rc_calibration_requested
  | Heartbeat_rate_set int
  | Rc_channel_rate_set int
  | Control_output_rate_set int

fun step :: "event \<Rightarrow> dispatch \<Rightarrow> abort + dispatch" where
  "step (Iteration env) st = send_iteration env st"
| "step (Servo_source_changed v) st = Inr (st\<lparr>self := set_servo_source v (self st)\<rparr>)"
| "step (Pilot_mode_changed v) st = Inr (st\<lparr>self := set_pilot_mode v (self st)\<rparr>)"
| "step (Gx3_mode_changed v) st = Inr (st\<lparr>self := set_filter_state v (self st)\<rparr>)"
| "step (Control_mode_changed v) st = Inr (st\<lparr>self := set_control_mode v (self st)\<rparr>)"
| "step (Attitude_source_changed v) st = Inr (st\<lparr>self := set_attitude_source v (self st)\<rparr>)"
| "step (Console message) st = Inr (st\<lparr>self := message_queue_push message (self st)\<rparr>)"
| "step Param_list_requested st = Inr (st\<lparr>link := (link st)\<lparr>param_recv := True\<rparr>\<rparr>)"
| "step (Param_requested p) st =
     Inr (st\<lparr>link := (link st)\<lparr>requested_params := requested_params (link st) @ [p]\<rparr>\<rparr>)"
| "step Rc_calibration_requested st =
     Inr (st\<lparr>link := (link st)\<lparr>requested_rc_calibration := True\<rparr>\<rparr>)"
| "step (Heartbeat_rate_set r) st = Inr (st\<lparr>link := (link st)\<lparr>heartbeat_rate := r\<rparr>\<rparr>)"
| "step (Rc_channel_rate_set r) st = Inr (st\<lparr>link := (link st)\<lparr>rc_channel_rate := r\<rparr>\<rparr>)"
| "step (Control_output_rate_set r) st =
     Inr (st\<lparr>link := (link st)\<lparr>control_output_rate := r\<rparr>\<rparr>)"

fun run :: "event list \<Rightarrow> dispatch \<Rightarrow> abort + dispatch" where
  "run [] st = Inr st"
| "run (e # es) st = (case step e st of Inl a \<Rightarrow> Inl a | Inr st' \<Rightarrow> run es st')"

subsection \<open>Conditions on a state\<close>

text \<open>
  The three rate tests of a pass have a defined result: the pass counter is not
  negative and no stream rate is below minus the base rate.
\<close>

definition rates_defined :: "dispatch \<Rightarrow> bool" where
  "rates_defined st \<longleftrightarrow>
     0 \<le> count st \<and> - send_rate \<le> heartbeat_rate (link st) \<and>
     - send_rate \<le> rc_channel_rate (link st) \<and> - send_rate \<le> control_output_rate (link st)"

text \<open>No coming call of \<^verbatim>\<open>send_to\<close> throws.\<close>

definition fault_free :: "dispatch \<Rightarrow> bool" where
  "fault_free st \<longleftrightarrow> list_all (\<lambda>outcome. outcome = None) (script (socket (link st)))"

subsection \<open>Concrete states for the scenarios\<close>

definition scenario_link :: QGCLink where
  "scenario_link =
     \<lparr>uasId = 100, heartbeat_rate = 0, rc_channel_rate = 0, control_output_rate = 0,
      param_recv = False, requested_params = [], requested_rc_calibration = False,
      socket = \<lparr>sent = [], attempted = [], script = []\<rparr>, warnings = []\<rparr>"

definition scenario_producers :: producers where
  "scenario_producers =
     \<lparr>switch_pilot_mode = PILOT_AUTO, switch_raw = (\<lambda>i. 1500), switch_engine_rpm = 0,
      switch_main_rotor_rpm = 0, rctrans_scaled = (\<lambda>c. 0),
      controller_mode = Mode_Position_Hold_PID, trajectory_type = Point_Trajectory,
      control_effort = [],
      control_parameters =
        [Parameter 20 ''KP'' 1, Parameter 20 ''KI'' 2, Parameter 20 ''KD'' 3],
      helicopter_parameters = [Parameter 30 ''MASS'' 4, Parameter 30 ''GRAVITY'' 5],
      main_collective = 0, radio_calibration = [], drivers = [],
      narrow_to_float = (\<lambda>d. 0), scaled_to_int16 = (\<lambda>d. 0)\<rparr>"

text \<open>A store with nothing allocated, and the store after one ordinary construction.\<close>

definition blank_memory :: memory where
  "blank_memory =
     \<lparr>objects = (\<lambda>a. \<lparr>qgc = None, servo_source = MODE_DIRECT_MANUAL,
                        pilot_mode = PILOT_MANUAL, filter_state = RUNNING,
                        control_mode = Mode_Position_Hold_SBF, attitude_source = False,
                        startTime = 0, send_queue = 0, message_queue = [],
                        attitude_source_connection = False\<rparr>),
      queues = (\<lambda>a. []), next_queue = 0\<rparr>"

definition scenario_memory :: memory where
  "scenario_memory = QGCSend_ctor 0 None 42 blank_memory"

definition scenario_dispatch :: dispatch where
  "scenario_dispatch = send_enter scenario_producers scenario_link 0 scenario_memory"


text \<open>
  A started loop whose status stream runs at the base rate, with two console texts
  waiting; the status packet every pass of it pushes; and the same loop in front of a
  transport whose next send throws.
\<close>

definition busy_dispatch :: dispatch where
  "busy_dispatch =
     scenario_dispatch
       \<lparr>self := (self scenario_dispatch)
          \<lparr>message_queue := [''Critical: overheat'', ''Warning: low battery'']\<rparr>,
        link := scenario_link\<lparr>heartbeat_rate := 200\<rparr>\<rparr>"

definition scenario_status :: packet where
  "scenario_status =
     UALBERTA_SYS_STATUS
       \<lparr>status_system = 100, qgc_servo_source = Literal_255,
        qgc_filter_state = Literal_255, qgc_pilot_mode = Dialect UALBERTA_PILOT_AUTO,
        qgc_control_mode = Dialect UALBERTA_TRANSLATION_PID,
        qgc_attitude_source = Dialect UALBERTA_NAV_FILTER, status_engine_rpm = 0,
        status_rotor_rpm = 0, status_collective = 0,
        qgc_trajectory = Dialect UALBERTA_POINT\<rparr>"

definition faulted_pass_dispatch :: dispatch where
  "faulted_pass_dispatch =
     busy_dispatch
       \<lparr>link := scenario_link
          \<lparr>heartbeat_rate := 200,
           socket := \<lparr>sent = [], attempted = [],
                       script = [Some (System_error ''Network is unreachable'')]\<rparr>\<rparr>\<rparr>"

section \<open>The rate test\<close>

lemma count_chunk0: "0 < d \<Longrightarrow> length (filter (\<lambda>i. d dvd i) [0..<d]) = Suc 0"
proof -
  assume d: "0 < (d::nat)"
  have "[0..<d] = 0 # [Suc 0..<d]" using d by (simp add: upt_conv_Cons)
  moreover have "filter (\<lambda>i. d dvd i) [Suc 0..<d] = []"
    by (auto simp: filter_empty_conv dest: nat_dvd_not_less)
  ultimately show ?thesis by simp
qed

lemma count_chunk: "0 < d \<Longrightarrow> length (filter (\<lambda>i. d dvd i) [m..<m + d]) = Suc 0"
proof (induction m)
  case 0
  then show ?case by (simp add: count_chunk0)
next
  case (Suc m)
  have a: "[m..<m + d] = m # [Suc m..<m + d]" using Suc.prems by (simp add: upt_conv_Cons)
  have b: "[Suc m..<Suc m + d] = [Suc m..<m + d] @ [m + d]" using Suc.prems by simp
  have c: "d dvd (m + d) \<longleftrightarrow> d dvd m" by simp
  from Suc.IH [OF Suc.prems] show ?case unfolding a b by (auto simp: c split: if_splits)
qed

lemma count_multiples:
  "0 < d \<Longrightarrow> length (filter (\<lambda>i. d dvd i) [m..<m + r * d]) = r"
proof (induction r)
  case 0
  then show ?case by simp
next
  case (Suc r)
  have e: "m + Suc r * d = (m + r * d) + d" by simp
  have "[m..<m + Suc r * d] = [m..<m + r * d] @ [m + r * d..<(m + r * d) + d]"
    unfolding e by (rule upt_add_eq_append) simp
  then show ?case using Suc count_chunk [of d "m + r * d"] by simp
qed

lemma int_div_pos: "0 < r \<Longrightarrow> 0 < b \<Longrightarrow> int_div b r = Some (b div r)"
  by (simp add: int_div_def INT_MIN_def)

lemma int_div_neg: "r < 0 \<Longrightarrow> 0 < b \<Longrightarrow> int_div b r = Some (- (b div (- r)))"
  by (simp add: int_div_def INT_MIN_def)

lemma int_mod_nonneg: "0 \<le> n \<Longrightarrow> d \<noteq> 0 \<Longrightarrow> int_mod n d = Some (n mod \<bar>d\<bar>)"
  by (cases "n = 0") (simp_all add: int_mod_def INT_MIN_def)

lemma should_run_defined:
  assumes "0 < b" "- b \<le> r" "r \<noteq> 0" "r \<le> b"
  shows "\<exists>d. int_div b r = Some d \<and> \<bar>d\<bar> = b div \<bar>r\<bar> \<and> 0 < b div \<bar>r\<bar> \<and>
             should_run r b (int n) = Some (int n mod \<bar>d\<bar> = 0)"
proof (cases "0 < r")
  case True
  then have p: "0 < b div r" using assms by (simp add: pos_imp_zdiv_pos_iff)
  show ?thesis using True assms p
    by (simp add: should_run_def int_div_pos int_mod_nonneg)
next
  case False
  then have neg: "r < 0" using assms by simp
  then have p: "0 < b div (- r)" using assms by (simp add: pos_imp_zdiv_pos_iff)
  show ?thesis using neg assms p
    by (simp add: should_run_def int_div_neg int_mod_nonneg)
qed

lemma mod_abs_zero_iff: "(n::int) mod \<bar>d\<bar> = 0 \<longleftrightarrow> n mod d = 0"
  by (simp add: mod_eq_0_iff_dvd)

lemma int_dvd_nat: "0 < p \<Longrightarrow> (int i mod p = 0) = (nat p dvd i)"
  by (metis dvd_eq_mod_eq_0 int_dvd_int_iff int_nat_eq less_le)

text \<open>
  C3, as the code has it. For a base rate \<open>b > 0\<close>, an iteration \<open>n \<ge> 0\<close> and a stream
  rate \<open>r \<ge> -b\<close>: \<open>should_run r b n\<close> is false when \<open>r = 0\<close> or \<open>r > b\<close>; otherwise the
  quotient \<open>b / r\<close> is defined and not zero, the result is true iff \<open>n mod (b / r) = 0\<close>,
  and it is true at \<open>n = 0\<close>. When moreover \<open>r\<close> divides \<open>b\<close>, it is true exactly at the
  multiples of \<open>b / |r|\<close>, and among any \<open>b\<close> consecutive iterations it is true exactly
  \<open>|r|\<close> times (\<open>r\<close> times for a positive rate).
\<close>

theorem should_run_schedule:
  fixes r b :: int and n :: nat
  assumes "0 < b" and "- b \<le> r"
  shows "(r = 0 \<or> b < r \<longrightarrow> should_run r b (int n) = Some False) \<and>
         (r \<noteq> 0 \<and> r \<le> b \<longrightarrow>
            (\<exists>d. int_div b r = Some d \<and> d \<noteq> 0 \<and>
                 should_run r b (int n) = Some (int n mod d = 0)) \<and>
            should_run r b 0 = Some True) \<and>
         (r \<noteq> 0 \<and> r \<le> b \<and> b mod r = 0 \<longrightarrow>
            (should_run r b (int n) = Some True \<longleftrightarrow>
               (\<exists>k::nat. int n = int k * (b div \<bar>r\<bar>))) \<and>
            length (filter (\<lambda>i. should_run r b (int i) = Some True) [n..<n + nat b])
              = nat \<bar>r\<bar>)"
proof (intro conjI impI)
  assume "r = 0 \<or> b < r"
  then show "should_run r b (int n) = Some False" by (auto simp: should_run_def)
next
  assume a: "r \<noteq> 0 \<and> r \<le> b"
  from should_run_defined [OF assms, of n] a
  obtain d where d: "int_div b r = Some d" "\<bar>d\<bar> = b div \<bar>r\<bar>" "0 < b div \<bar>r\<bar>"
    "should_run r b (int n) = Some (int n mod \<bar>d\<bar> = 0)" by blast
  from d(2,3) have nz: "d \<noteq> 0" by auto
  from d(4) have run: "should_run r b (int n) = Some (int n mod d = 0)"
    by (simp only: mod_abs_zero_iff)
  from d(1) nz run show "\<exists>d. int_div b r = Some d \<and> d \<noteq> 0 \<and>
                 should_run r b (int n) = Some (int n mod d = 0)"
    by blast
next
  assume a: "r \<noteq> 0 \<and> r \<le> b"
  from should_run_defined [OF assms, of 0] a
  show "should_run r b 0 = Some True" by auto
next
  assume a: "r \<noteq> 0 \<and> r \<le> b \<and> b mod r = 0"
  define p where "p = b div \<bar>r\<bar>"
  have fires: "should_run r b (int i) = Some True \<longleftrightarrow> nat p dvd i" and ppos: "0 < p" for i
  proof -
    from should_run_defined [OF assms, of i] a
    obtain d where d: "\<bar>d\<bar> = p" "0 < p" "should_run r b (int i) = Some (int i mod \<bar>d\<bar> = 0)"
      unfolding p_def by blast
    then show "should_run r b (int i) = Some True \<longleftrightarrow> nat p dvd i"
      by (simp add: int_dvd_nat)
    show "0 < p" by (rule d(2))
  qed
  show "should_run r b (int n) = Some True \<longleftrightarrow> (\<exists>k::nat. int n = int k * (b div \<bar>r\<bar>))"
  proof
    assume "should_run r b (int n) = Some True"
    then have "nat p dvd n" by (simp add: fires)
    then obtain k where "n = k * nat p" by (auto simp: dvd_def mult.commute)
    then have "int n = int k * p" using ppos by simp
    then show "\<exists>k::nat. int n = int k * (b div \<bar>r\<bar>)" unfolding p_def by blast
  next
    assume "\<exists>k::nat. int n = int k * (b div \<bar>r\<bar>)"
    then obtain k :: nat where "int n = int k * p" unfolding p_def by blast
    then have "int n = int (k * nat p)" using ppos by simp
    then have "n = k * nat p" by (simp only: of_nat_eq_iff)
    then have "nat p dvd n" by simp
    then show "should_run r b (int n) = Some True" by (simp only: fires)
  qed
  have "\<bar>r\<bar> dvd b" using a by (simp add: mod_eq_0_iff_dvd)
  then have "b = \<bar>r\<bar> * p" unfolding p_def by simp
  then have nb: "nat b = nat \<bar>r\<bar> * nat p" using ppos by (simp add: nat_mult_distrib)
  have "0 < nat p" using ppos by simp
  from count_multiples [OF this, of n "nat \<bar>r\<bar>"]
  show "length (filter (\<lambda>i. should_run r b (int i) = Some True) [n..<n + nat b]) = nat \<bar>r\<bar>"
    by (simp add: fires nb)
qed

theorem should_run_schedule_witness:
  "((0::int) < 200 \<and> - 200 \<le> (2::int)) \<and>
   ((2::int) \<noteq> 0 \<and> (2::int) \<le> 200 \<and> (200::int) mod 2 = 0) \<and>
   should_run 2 200 0 = Some True \<and>
   length (filter (\<lambda>i. should_run 2 200 (int i) = Some True) [5..<5 + nat 200]) = nat \<bar>2\<bar>"
proof -
  have h1: "(0::int) < 200" by simp
  have h2: "- 200 \<le> (2::int)" by simp
  have p: "(2::int) \<noteq> 0 \<and> (2::int) \<le> 200 \<and> (200::int) mod 2 = 0" by simp
  have q: "(2::int) \<noteq> 0 \<and> (2::int) \<le> 200" by simp
  note t = should_run_schedule [OF h1 h2, of 5]
  note t2 = t [THEN conjunct2, THEN conjunct1, THEN mp, OF q, THEN conjunct2]
  note t3 = t [THEN conjunct2, THEN conjunct2, THEN mp, OF p, THEN conjunct2]
  from h1 h2 p t2 t3 show ?thesis by blast
qed

text \<open>
  The claim C3 as it is worded, for all integer rates, fails: a rate below \<open>-b\<close> makes the
  quotient zero and the remainder undefined, and the rate \<open>-2\<close> fires at the iterations 0
  and 100 of the first 200, which is not \<open>-2\<close> times.
\<close>

theorem should_run_negative_rate_counterexample:
  "should_run (- 201) 200 0 = None \<and>
   should_run (- 2) 200 0 = Some True \<and> should_run (- 2) 200 100 = Some True"
  by (simp add: should_run_def int_div_def int_mod_def INT_MIN_def)

section \<open>What the encoders push\<close>

lemma send_rc_channels_eq:
  "send_rc_channels env q =
     q @ [RC_CHANNELS_RAW
            [switch_raw env 0, switch_raw env 1, switch_raw env 2, switch_raw env 3,
             switch_raw env 4, switch_raw env 5, switch_raw env 6, switch_raw env 7],
          RC_CHANNELS_SCALED
            [scaled_to_int16 env (rctrans_scaled env AILERON),
             scaled_to_int16 env (rctrans_scaled env ELEVATOR),
             scaled_to_int16 env (rctrans_scaled env THROTTLE),
             scaled_to_int16 env (rctrans_scaled env RUDDER),
             scaled_to_int16 env (rctrans_scaled env GYRO),
             scaled_to_int16 env (rctrans_scaled env PITCH), 0, 0]]"
  by (simp add: send_rc_channels_def Let_def)

lemma send_control_effort_eq:
  "send_control_effort env lnk q =
     q @ [UALBERTA_CONTROL_EFFORT (uasId lnk) (map (narrow_to_float env) (control_effort env))]"
  by (simp add: send_control_effort_def Let_def)

lemma count_params_eq: "count_params plist acc = acc + int (length (concat plist))"
  by (induction plist arbitrary: acc) simp_all

lemma send_param_items_eq:
  "send_param_items uas n ps (int k) q =
     (int (k + length ps),
      q @ map (\<lambda>(i, p). PARAM_VALUE
                \<lparr>param_system = uas, param_component = getCompID p mod 256,
                 param_id = getParamID p, param_float = getValue p,
                 param_count = n, param_index = int i\<rparr>) (enumerate k ps))"
proof (induction ps arbitrary: k q)
  case Nil
  then show ?case by simp
next
  case (Cons p ps)
  have "int k + 1 = int (Suc k)" by simp
  then show ?case using Cons [of "Suc k"] by (simp add: add.commute)
qed

lemma send_param_sources_eq:
  "send_param_sources uas n plist (int k) q =
     (int (k + length (concat plist)),
      q @ map (\<lambda>(i, p). PARAM_VALUE
                \<lparr>param_system = uas, param_component = getCompID p mod 256,
                 param_id = getParamID p, param_float = getValue p,
                 param_count = n, param_index = int i\<rparr>) (enumerate k (concat plist)))"
proof (induction plist arbitrary: k q)
  case Nil
  then show ?case by simp
next
  case (Cons ps plist)
  show ?case
    using Cons [of "k + length ps"]
    by (simp add: send_param_items_eq enumerate_append_eq add.assoc)
qed

lemma send_param_eq:
  "send_param env lnk q =
     q @ map (\<lambda>(i, p). PARAM_VALUE
               \<lparr>param_system = uasId lnk, param_component = getCompID p mod 256,
                param_id = getParamID p, param_float = getValue p,
                param_count = int (length (control_parameters env) + length (helicopter_parameters env)),
                param_index = int i\<rparr>)
           (enumerate 0 (control_parameters env @ helicopter_parameters env))"
  using send_param_sources_eq [of "uasId lnk" _ "[control_parameters env, helicopter_parameters env]" 0 q]
  by (simp add: send_param_def count_params_eq)

lemma send_requested_params_loop_eq:
  "send_requested_params_loop uas reqs q =
     ([], q @ map (\<lambda>p. PARAM_VALUE
                    \<lparr>param_system = uas, param_component = getCompID p,
                     param_id = getParamID p, param_float = getValue p,
                     param_count = 1, param_index = - 1\<rparr>) reqs)"
  by (induction reqs arbitrary: q) simp_all

lemma push_messages_eq: "push_messages msgs q = q @ map DRIVER_MESSAGE msgs"
  by (induction msgs arbitrary: q) simp_all

lemma send_driver_messages_eq:
  "send_driver_messages ds uas rate n q =
     q @ map DRIVER_MESSAGE (concat (map (\<lambda>d. d uas rate n) ds))"
  by (induction ds arbitrary: q) (simp_all add: push_messages_eq)

lemma prefix_take_iff: "length t \<le> n \<Longrightarrow> prefix t (take n s) \<longleftrightarrow> prefix t s"
proof
  assume "prefix t (take n s)"
  then have "prefix t (take n s @ drop n s)" by (rule prefix_prefix)
  then show "prefix t s" by simp
next
  assume len: "length t \<le> n" and "prefix t s"
  then obtain r where "s = t @ r" by (auto simp: prefix_def)
  with len show "prefix t (take n s)" by simp
qed

lemma prefix_padded:
  assumes "c \<notin> set t"
  shows "prefix t (s @ replicate k c) \<longleftrightarrow> prefix t s"
proof
  assume "prefix t s"
  then show "prefix t (s @ replicate k c)" by (rule prefix_prefix)
next
  assume "prefix t (s @ replicate k c)"
  then consider "prefix t s" | us where "t = s @ us" "prefix us (replicate k c)"
    by (auto simp: prefix_append)
  then show "prefix t s"
  proof cases
    case 1
    then show ?thesis .
  next
    case 2
    have "set us \<subseteq> set (replicate k c)" using 2(2) by (rule set_mono_prefix)
    then have "set us \<subseteq> {c}" by auto
    moreover have "c \<notin> set us" using assms 2(1) by simp
    ultimately have "us = []" by (cases us) auto
    then show ?thesis using 2(1) by simp
  qed
qed

lemma prefix_resize:
  assumes "length t \<le> n" and "CHR 0x00 \<notin> set t"
  shows "prefix t (resize n s) \<longleftrightarrow> prefix t s"
  using assms by (simp add: resize_def prefix_take_iff prefix_padded)

lemma starts_with_Critical: "prefix ''Critical'' (resize 50 s) \<longleftrightarrow> prefix ''Critical'' s"
  by (rule prefix_resize) simp_all

section \<open>The statements of the loop body\<close>

lemma send_requested_params_eq:
  "send_requested_params lnk q =
     (lnk\<lparr>requested_params := []\<rparr>,
      q @ map (\<lambda>p. PARAM_VALUE
                \<lparr>param_system = uasId lnk, param_component = getCompID p,
                 param_id = getParamID p, param_float = getValue p,
                 param_count = 1, param_index = - 1\<rparr>) (requested_params lnk))"
  by (simp add: send_requested_params_def send_requested_params_loop_eq)

lemma status_statement_eq:
  "should_run (heartbeat_rate (link st)) send_rate (count st) = Some hs \<Longrightarrow>
   status_statement env st =
     Inr (st\<lparr>sendq := sendq st @
            (if hs then send_status env (link st) (self st) (send_heartbeat []) else [])\<rparr>)"
  by (simp add: status_statement_def send_heartbeat_def send_status_def Let_def)

lemma param_statement_eq:
  "param_statement env st =
     Inr (st\<lparr>link := (link st)\<lparr>param_recv := False\<rparr>,
            sendq := sendq st @ (if param_recv (link st) then send_param env (link st) [] else [])\<rparr>)"
  by (simp add: param_statement_def Let_def send_param_eq)

lemma rc_statement_eq:
  "should_run (rc_channel_rate (link st)) send_rate (count st) = Some rc \<Longrightarrow>
   rc_statement env st =
     Inr (st\<lparr>sendq := sendq st @ (if rc then send_rc_channels env [] else [])\<rparr>)"
  by (simp add: rc_statement_def send_rc_channels_eq)

lemma effort_statement_eq:
  "should_run (control_output_rate (link st)) send_rate (count st) = Some eff \<Longrightarrow>
   effort_statement env st =
     Inr (st\<lparr>sendq := sendq st @ (if eff then send_control_effort env (link st) [] else [])\<rparr>)"
  by (simp add: effort_statement_def send_control_effort_eq)

lemma requested_statement_eq:
  "requested_statement st =
     Inr (st\<lparr>sendq := sendq st @ snd (send_requested_params (link st) []),
            link := (link st)\<lparr>requested_params := []\<rparr>\<rparr>)"
  by (cases "requested_params (link st) = []")
     (simp_all add: requested_statement_def send_requested_params_eq)

lemma calibration_statement_eq:
  "calibration_statement env st =
     Inr (st\<lparr>sendq := sendq st @
              (if requested_rc_calibration (link st) then send_rc_calibration env (link st) []
               else []),
            link := (link st)\<lparr>requested_rc_calibration := False\<rparr>\<rparr>)"
  by (cases "requested_rc_calibration (link st)")
     (simp_all add: calibration_statement_def send_rc_calibration_def)

lemma driver_statement_eq:
  "driver_statement env st =
     Inr (st\<lparr>sendq := sendq st @
            send_driver_messages (drivers env) (uasId (link st)) send_rate (count st) []\<rparr>)"
  by (simp add: driver_statement_def send_driver_messages_eq)

lemma console_statement_eq:
  "console_statement st =
     Inr (st\<lparr>self := (self st)\<lparr>message_queue := tl (message_queue (self st))\<rparr>,
            sendq := sendq st @
              (case message_queue (self st) of
                 [] \<Rightarrow> []
               | message # rest \<Rightarrow> send_console_message (link st) message [])\<rparr>)"
  by (cases "message_queue (self st)")
     (simp_all add: console_statement_def message_queue_empty_def message_queue_pop_def
        send_console_message_def Let_def)

lemma enqueue_eq:
  assumes "should_run (heartbeat_rate (link st)) send_rate (count st) = Some hs"
    and "should_run (rc_channel_rate (link st)) send_rate (count st) = Some rc"
    and "should_run (control_output_rate (link st)) send_rate (count st) = Some eff"
  shows "enqueue env st =
     Inr (st\<lparr>self := (self st)\<lparr>message_queue := tl (message_queue (self st))\<rparr>,
            sendq := sendq st @ pushed env st hs rc eff,
            link := (link st)\<lparr>param_recv := False, requested_params := [],
                                  requested_rc_calibration := False\<rparr>\<rparr>)"
  using assms
  by (simp add: enqueue_def and_then_def pushed_def status_statement_eq param_statement_eq
        rc_statement_eq effort_statement_eq requested_statement_eq calibration_statement_eq
        driver_statement_eq console_statement_eq send_param_eq send_status_def Let_def
        send_control_effort_eq send_requested_params_eq send_rc_calibration_def
        send_console_message_def
      split del: if_split cong: if_cong list.case_cong)

lemma enqueue_Inr:
  assumes "enqueue env st = Inr st'"
  shows "\<exists>hs rc eff.
           should_run (heartbeat_rate (link st)) send_rate (count st) = Some hs \<and>
           should_run (rc_channel_rate (link st)) send_rate (count st) = Some rc \<and>
           should_run (control_output_rate (link st)) send_rate (count st) = Some eff"
  using assms
  by (auto simp: enqueue_def and_then_def status_statement_def param_statement_def Let_def
        rc_statement_def effort_statement_def split: option.splits if_splits)

section \<open>The flush loop\<close>

lemma flush_loop_ok:
  "list_all (\<lambda>x. x = None) (script s) \<Longrightarrow>
   flush_loop s q =
     (None, s\<lparr>sent := sent s @ q, attempted := attempted s @ q,
               script := drop (length q) (script s)\<rparr>, [])"
proof (induction q arbitrary: s)
  case Nil
  then show ?case by simp
next
  case (Cons p q)
  show ?case
  proof (cases "script s")
    case Nil
    with Cons.IH [of "s\<lparr>sent := sent s @ [p], attempted := attempted s @ [p]\<rparr>"]
    show ?thesis by (simp add: send_to_def)
  next
    case (Cons x rest)
    with Cons.prems have x: "x = None" and r: "list_all (\<lambda>x. x = None) rest" by simp_all
    from Cons.IH [of "s\<lparr>sent := sent s @ [p], attempted := attempted s @ [p], script := rest\<rparr>"] r
    show ?thesis using Cons x by (simp add: send_to_def)
  qed
qed

lemma flush_loop_fault:
  "script s = replicate j None @ Some e # rest \<Longrightarrow> j < length q \<Longrightarrow>
   flush_loop s q =
     (Some e, s\<lparr>sent := sent s @ take j q, attempted := attempted s @ take (Suc j) q,
                 script := rest\<rparr>, drop j q)"
proof (induction q arbitrary: s j)
  case Nil
  then show ?case by simp
next
  case (Cons p q)
  show ?case
  proof (cases j)
    case 0
    with Cons.prems show ?thesis by (simp add: send_to_def)
  next
    case (Suc i)
    with Cons.prems have s: "script s = None # (replicate i None @ Some e # rest)" and i: "i < length q"
      by simp_all
    from Cons.IH [of "s\<lparr>sent := sent s @ [p], attempted := attempted s @ [p],
                        script := replicate i None @ Some e # rest\<rparr>" i] i
    show ?thesis using s Suc by (simp add: send_to_def)
  qed
qed

lemma flush_loop_fifo:
  "flush_loop s q = (r, s', q') \<Longrightarrow>
   \<exists>n\<le>length q. sent s' = sent s @ take n q \<and> q' = drop n q \<and> (r = None \<longrightarrow> n = length q)"
proof (induction q arbitrary: s)
  case Nil
  then show ?case by auto
next
  case (Cons p q)
  show ?case
  proof (cases "send_to s p")
    case (Pair x s1)
    show ?thesis
    proof (cases x)
      case None
      with Pair Cons.prems have f: "flush_loop s1 q = (r, s', q')" by simp
      from Pair None have s1: "sent s1 = sent s @ [p]"
        by (auto simp: send_to_def split: list.splits option.splits)
      from Cons.IH [OF f] obtain n where
        n: "n \<le> length q" "sent s' = sent s1 @ take n q" "q' = drop n q" "r = None \<longrightarrow> n = length q"
        by blast
      show ?thesis
        by (rule exI [of _ "Suc n"]) (use n s1 in simp)
    next
      case (Some e)
      with Pair Cons.prems have "r = Some e" "s' = s1" "q' = p # q" by simp_all
      moreover from Pair Some have "sent s1 = sent s"
        by (auto simp: send_to_def split: list.splits option.splits)
      ultimately show ?thesis by (intro exI [of _ 0]) simp
    qed
  qed
qed

section \<open>Parameter packets and the status packet\<close>

text \<open>
  C5. \<^verbatim>\<open>send_param\<close> walks the parameter sources in a fixed order, the controller's
  parameters and then the helicopter's, and pushes exactly one packet per parameter
  behind what the queue held. The packet at position \<open>i\<close> is built from the \<open>i\<close>-th
  parameter in source-then-item order and carries the total number of parameters of all
  sources as its count and \<open>i\<close>, counted from zero, as its index. With sources of 3 and
  2 parameters that is 5 packets with count 5 and the indices 0 to 4. The statement of
  the loop body that services the latch clears it and, when it was set, pushes this dump.
\<close>

theorem send_param_full_dump:
  "(\<exists>pk. send_param env lnk q = q @ pk \<and>
        length pk = length (control_parameters env) + length (helicopter_parameters env) \<and>
        (\<forall>i<length pk.
           pk ! i = PARAM_VALUE
             \<lparr>param_system = uasId lnk,
              param_component =
                getCompID ((control_parameters env @ helicopter_parameters env) ! i) mod 256,
              param_id = getParamID ((control_parameters env @ helicopter_parameters env) ! i),
              param_float = getValue ((control_parameters env @ helicopter_parameters env) ! i),
              param_count = int (length pk), param_index = int i\<rparr>)) \<and>
   param_statement env st =
     Inr (st\<lparr>link := (link st)\<lparr>param_recv := False\<rparr>,
            sendq := sendq st @
              (if param_recv (link st) then send_param env (link st) [] else [])\<rparr>)"
  by (simp add: send_param_eq nth_enumerate_eq param_statement_eq)

text \<open>The dump of C5 with sources of 3 and 2 parameters.\<close>

theorem send_param_full_dump_witness:
  "length (send_param scenario_producers scenario_link []) = 5 \<and>
   send_param scenario_producers scenario_link [] ! 0 =
     PARAM_VALUE \<lparr>param_system = 100, param_component = 20, param_id = ''KP'',
                  param_float = 1, param_count = 5, param_index = 0\<rparr> \<and>
   send_param scenario_producers scenario_link [] ! 3 =
     PARAM_VALUE \<lparr>param_system = 100, param_component = 30, param_id = ''MASS'',
                  param_float = 4, param_count = 5, param_index = 3\<rparr> \<and>
   send_param scenario_producers scenario_link [] ! 4 =
     PARAM_VALUE \<lparr>param_system = 100, param_component = 30, param_id = ''GRAVITY'',
                  param_float = 5, param_count = 5, param_index = 4\<rparr>"
proof -
  from send_param_full_dump [of scenario_producers scenario_link "[]", THEN conjunct1]
  obtain pk where pk: "send_param scenario_producers scenario_link [] = pk"
    and len: "length pk = 5"
    and nth: "\<forall>i<length pk.
           pk ! i = PARAM_VALUE
             \<lparr>param_system = uasId scenario_link,
              param_component =
                getCompID ((control_parameters scenario_producers @
                            helicopter_parameters scenario_producers) ! i) mod 256,
              param_id = getParamID ((control_parameters scenario_producers @
                            helicopter_parameters scenario_producers) ! i),
              param_float = getValue ((control_parameters scenario_producers @
                            helicopter_parameters scenario_producers) ! i),
              param_count = int (length pk), param_index = int i\<rparr>"
    by (auto simp: scenario_producers_def)
  from nth len have "pk ! 0 = PARAM_VALUE \<lparr>param_system = 100, param_component = 20, param_id = ''KP'',
                  param_float = 1, param_count = 5, param_index = 0\<rparr>"
    by (simp add: scenario_producers_def scenario_link_def)
  moreover from nth len have "pk ! 3 = PARAM_VALUE \<lparr>param_system = 100, param_component = 30, param_id = ''MASS'',
                  param_float = 4, param_count = 5, param_index = 3\<rparr>"
    by (simp add: scenario_producers_def scenario_link_def)
  moreover from nth len have "pk ! 4 = PARAM_VALUE \<lparr>param_system = 100, param_component = 30, param_id = ''GRAVITY'',
                  param_float = 5, param_count = 5, param_index = 4\<rparr>"
    by (simp add: scenario_producers_def scenario_link_def)
  ultimately show ?thesis using pk len by simp
qed

text \<open>
  C6. Servicing the single-parameter requests empties the request queue and pushes, in
  the order of the requests, exactly one reply per request, each with count 1 and index
  \<open>-1\<close>; the statement of the loop body that services them does the same (and nothing when
  the queue is empty).
\<close>

theorem requested_params_drained:
  "send_requested_params lnk q =
     (lnk\<lparr>requested_params := []\<rparr>,
      q @ map (\<lambda>p. PARAM_VALUE
                \<lparr>param_system = uasId lnk, param_component = getCompID p,
                 param_id = getParamID p, param_float = getValue p,
                 param_count = 1, param_index = - 1\<rparr>) (requested_params lnk)) \<and>
   requested_statement st =
     Inr (st\<lparr>sendq := sendq st @
              map (\<lambda>p. PARAM_VALUE
                \<lparr>param_system = uasId (link st), param_component = getCompID p,
                 param_id = getParamID p, param_float = getValue p,
                 param_count = 1, param_index = - 1\<rparr>) (requested_params (link st)),
            link := (link st)\<lparr>requested_params := []\<rparr>\<rparr>)"
  by (simp add: requested_statement_eq send_requested_params_eq)

text \<open>
  C2, as the code has it. The status encoder pushes one status packet. Its pilot-mode
  code comes from the cached \<open>pilot_mode\<close>, unless that cache holds its unset value
  \<^verbatim>\<open>NUM_PILOT_MODES\<close>: then it comes from a direct query of the pilot-mode producer.
  Every other field is encoded from its cached value as it is: a cached \<open>pilot_mode\<close>
  that is set makes the packet independent of the pilot-mode producer, the packet never
  depends on the controller-mode producer, and an unset \<open>control_mode\<close> is sent as the
  code 255.
\<close>

theorem send_status_pilot_mode_query:
  "(\<exists>v. send_status env lnk this q = q @ [UALBERTA_SYS_STATUS v] \<and>
        qgc_pilot_mode v =
          pilot_mode_code (if get_pilot_mode this = NUM_PILOT_MODES then switch_pilot_mode env
                           else get_pilot_mode this) \<and>
        qgc_control_mode v = control_mode_code (get_control_mode this) \<and>
        qgc_servo_source v = servo_source_code (get_servo_source this) \<and>
        qgc_filter_state v = filter_state_code (get_filter_state this) \<and>
        qgc_attitude_source v =
          (if get_attitude_source this then Dialect UALBERTA_NAV_FILTER
           else Dialect UALBERTA_AHRS)) \<and>
   (get_pilot_mode this \<noteq> NUM_PILOT_MODES \<longrightarrow>
      send_status (env\<lparr>switch_pilot_mode := p\<rparr>) lnk this q = send_status env lnk this q) \<and>
   send_status (env\<lparr>controller_mode := c\<rparr>) lnk this q = send_status env lnk this q \<and>
   control_mode_code Num_Controller_Modes = Literal_255"
  by (simp add: send_status_def Let_def control_mode_code_def)

text \<open>
  The claim C2 as it is worded fails: with \<open>control_mode\<close> unset and \<open>pilot_mode\<close> cached as
  manual, the packet carries the cached manual mode although the producer reports
  automatic, and the unset control mode goes out as 255; with \<open>control_mode\<close> set and
  \<open>pilot_mode\<close> unset, the pilot mode of the packet is the producer's.
\<close>

theorem send_status_control_mode_counterexample:
  "get_control_mode (objects scenario_memory 0\<lparr>pilot_mode := PILOT_MANUAL\<rparr>) = Num_Controller_Modes \<and>
   switch_pilot_mode scenario_producers = PILOT_AUTO \<and>
   send_status scenario_producers scenario_link
     (objects scenario_memory 0\<lparr>pilot_mode := PILOT_MANUAL\<rparr>) [] =
     [UALBERTA_SYS_STATUS
        \<lparr>status_system = 100, qgc_servo_source = Literal_255, qgc_filter_state = Literal_255,
         qgc_pilot_mode = Dialect UALBERTA_PILOT_MANUAL, qgc_control_mode = Literal_255,
         qgc_attitude_source = Dialect UALBERTA_NAV_FILTER, status_engine_rpm = 0,
         status_rotor_rpm = 0, status_collective = 0,
         qgc_trajectory = Dialect UALBERTA_POINT\<rparr>] \<and>
   get_control_mode (objects scenario_memory 0\<lparr>control_mode := Mode_Position_Hold_SBF\<rparr>)
     = Mode_Position_Hold_SBF \<and>
   get_pilot_mode (objects scenario_memory 0\<lparr>control_mode := Mode_Position_Hold_SBF\<rparr>)
     = NUM_PILOT_MODES \<and>
   send_status scenario_producers scenario_link
     (objects scenario_memory 0\<lparr>control_mode := Mode_Position_Hold_SBF\<rparr>) [] =
     [UALBERTA_SYS_STATUS
        \<lparr>status_system = 100, qgc_servo_source = Literal_255, qgc_filter_state = Literal_255,
         qgc_pilot_mode = Dialect UALBERTA_PILOT_AUTO,
         qgc_control_mode = Dialect UALBERTA_TRANSLATION_SBF,
         qgc_attitude_source = Dialect UALBERTA_NAV_FILTER, status_engine_rpm = 0,
         status_rotor_rpm = 0, status_collective = 0,
         qgc_trajectory = Dialect UALBERTA_POINT\<rparr>]"
  by (simp add: send_status_def Let_def scenario_memory_def blank_memory_def scenario_producers_def
        scenario_link_def QGCSend_ctor_def new_queue_def get_control_mode_def
        get_pilot_mode_def get_servo_source_def get_filter_state_def get_attitude_source_def
        servo_source_code_def filter_state_code_def pilot_mode_code_def control_mode_code_def
        trajectory_code_def)

text \<open>
  C9, as the code has it. The copy constructor duplicates the five cached mode fields,
  the link pointer and the start time of its source; it allocates a fresh send queue,
  distinct from every allocated one, holding a copy of the source's queued packets, and
  leaves every other queue and object alone; the mailbox of the copy is empty and its
  subscription is not connected. Assignment from another object duplicates the five
  cached mode fields only: the target keeps its link pointer, start time, send queue,
  mailbox and subscription, and no queue is allocated or changed. Self-assignment changes
  nothing.
\<close>

theorem copy_and_assignment:
  "(let m' = QGCSend_copy_ctor this other m; new = objects m' this; src = objects m other
    in get_servo_source new = get_servo_source src \<and>
       get_pilot_mode new = get_pilot_mode src \<and>
       get_filter_state new = get_filter_state src \<and>
       get_control_mode new = get_control_mode src \<and>
       get_attitude_source new = get_attitude_source src \<and>
       qgc new = qgc src \<and>
       startTime new = startTime src \<and>
       send_queue new = next_queue m \<and>
       (send_queue src < next_queue m \<longrightarrow> send_queue new \<noteq> send_queue src) \<and>
       queues m' (send_queue new) = queues m (send_queue src) \<and>
       (\<forall>a. a \<noteq> next_queue m \<longrightarrow> queues m' a = queues m a) \<and>
       message_queue new = [] \<and>
       \<not> attitude_source_connection new \<and>
       (\<forall>a. a \<noteq> this \<longrightarrow> objects m' a = objects m a)) \<and>
   (this \<noteq> other \<longrightarrow>
     (let m' = operator_assign this other m; tgt = objects m' this; src = objects m other
      in get_servo_source tgt = get_servo_source src \<and>
         get_pilot_mode tgt = get_pilot_mode src \<and>
         get_filter_state tgt = get_filter_state src \<and>
         get_control_mode tgt = get_control_mode src \<and>
         get_attitude_source tgt = get_attitude_source src \<and>
         qgc tgt = qgc (objects m this) \<and>
         startTime tgt = startTime (objects m this) \<and>
         send_queue tgt = send_queue (objects m this) \<and>
         message_queue tgt = message_queue (objects m this) \<and>
         attitude_source_connection tgt = attitude_source_connection (objects m this) \<and>
         queues m' = queues m \<and> next_queue m' = next_queue m \<and>
         (\<forall>a. a \<noteq> this \<longrightarrow> objects m' a = objects m a))) \<and>
   operator_assign this this m = m"
  by (simp add: QGCSend_copy_ctor_def operator_assign_def new_queue_def Let_def
        get_servo_source_def get_pilot_mode_def get_filter_state_def get_control_mode_def
        get_attitude_source_def)

text \<open>C9 for a copy of, and an assignment from, the object at address 0.\<close>

theorem copy_and_assignment_witness:
  "(1::nat) \<noteq> 0 \<and> send_queue (objects scenario_memory 0) < next_queue scenario_memory \<and>
   send_queue (objects (QGCSend_copy_ctor 1 0 scenario_memory) 1) \<noteq>
     send_queue (objects scenario_memory 0) \<and>
   startTime (objects (operator_assign 1 0 scenario_memory) 1) =
     startTime (objects scenario_memory 1)"
proof -
  have a: "send_queue (objects scenario_memory 0) < next_queue scenario_memory"
    by (simp add: scenario_memory_def blank_memory_def QGCSend_ctor_def new_queue_def)
  have b: "(1::nat) \<noteq> 0" by simp
  note t = copy_and_assignment [of 1 0 scenario_memory]
  have c: "send_queue (objects (QGCSend_copy_ctor 1 0 scenario_memory) 1) \<noteq>
     send_queue (objects scenario_memory 0)"
    using t [THEN conjunct1] a by (simp add: Let_def)
  have d: "startTime (objects (operator_assign 1 0 scenario_memory) 1) =
     startTime (objects scenario_memory 1)"
    using t [THEN conjunct2, THEN conjunct1, THEN mp, OF b] by (simp add: Let_def)
  from a b c d show ?thesis by blast
qed

text \<open>
  The claim C9 as it is worded fails: the start time of a copy-constructed object is
  the source's, whatever it is (42, or 7).
\<close>

theorem copy_ctor_start_time_counterexample:
  "startTime (objects scenario_memory 0) = 42 \<and>
   startTime (objects (QGCSend_copy_ctor 1 0 scenario_memory) 1) = 42 \<and>
   startTime (objects (QGCSend_copy_ctor 1 0
      (scenario_memory\<lparr>objects := (objects scenario_memory)
         (0 := objects scenario_memory 0\<lparr>startTime := 7\<rparr>)\<rparr>)) 1) = 7"
  by (simp add: scenario_memory_def blank_memory_def QGCSend_ctor_def QGCSend_copy_ctor_def new_queue_def Let_def)

section \<open>One pass: flush, totality and order of the pushed packets\<close>

lemma flush_fault:
  assumes "script (socket (link st)) = replicate j None @ Some e # rest"
    and "j < length (sendq st)"
  shows "flush st =
     (None, st\<lparr>sendq := drop j (sendq st),
               link := (link st)
                 \<lparr>socket := (socket (link st))
                    \<lparr>sent := sent (socket (link st)) @ take j (sendq st),
                     attempted := attempted (socket (link st)) @ take (Suc j) (sendq st),
                     script := rest\<rparr>,
                  warnings := warnings (link st) @ [what e]\<rparr>\<rparr>)"
  by (simp add: flush_def flush_loop_fault [OF assms])

lemma flush_ok:
  assumes "fault_free st"
  shows "flush st =
     (None, st\<lparr>sendq := [],
               link := (link st)
                 \<lparr>socket := (socket (link st))
                    \<lparr>sent := sent (socket (link st)) @ sendq st,
                     attempted := attempted (socket (link st)) @ sendq st,
                     script := drop (length (sendq st)) (script (socket (link st)))\<rparr>\<rparr>\<rparr>)"
  using assms by (simp add: flush_def fault_free_def flush_loop_ok)

lemma flush_fifo:
  "\<exists>n\<le>length (sendq st).
      sent (socket (link (snd (flush st)))) = sent (socket (link st)) @ take n (sendq st) \<and>
      sendq (snd (flush st)) = drop n (sendq st) \<and>
      self (snd (flush st)) = self st \<and> count (snd (flush st)) = count st"
proof -
  obtain r s' q' where f: "flush_loop (socket (link st)) (sendq st) = (r, s', q')"
    by (cases "flush_loop (socket (link st)) (sendq st)") auto
  from flush_loop_fifo [OF f] obtain n where
    n: "n \<le> length (sendq st)" "sent s' = sent (socket (link st)) @ take n (sendq st)"
       "q' = drop n (sendq st)" by blast
  show ?thesis
    by (rule exI [of _ n]) (use n f in \<open>cases r; simp add: flush_def\<close>)
qed

lemma should_run_total:
  assumes "0 < b" "- b \<le> r" "0 \<le> n"
  shows "\<exists>x. should_run r b n = Some x"
proof (cases "r = 0 \<or> b < r")
  case True
  then show ?thesis by (auto simp: should_run_def)
next
  case False
  then have "r \<noteq> 0" "r \<le> b" by auto
  from should_run_defined [OF assms(1,2) this, of "nat n"] assms(3)
  show ?thesis by auto
qed

lemma enqueue_total:
  assumes "rates_defined st"
  shows "\<exists>hs rc eff. enqueue env st =
     Inr (st\<lparr>self := (self st)\<lparr>message_queue := tl (message_queue (self st))\<rparr>,
            sendq := sendq st @ pushed env st hs rc eff,
            link := (link st)\<lparr>param_recv := False, requested_params := [],
                                  requested_rc_calibration := False\<rparr>\<rparr>)"
proof -
  from assms have c: "0 \<le> count st" and b: "0 < send_rate"
    and r: "- send_rate \<le> heartbeat_rate (link st)" "- send_rate \<le> rc_channel_rate (link st)"
           "- send_rate \<le> control_output_rate (link st)"
    by (simp_all add: rates_defined_def send_rate_def)
  from should_run_total [OF b r(1) c] obtain hs where
    1: "should_run (heartbeat_rate (link st)) send_rate (count st) = Some hs" by blast
  from should_run_total [OF b r(2) c] obtain rc where
    2: "should_run (rc_channel_rate (link st)) send_rate (count st) = Some rc" by blast
  from should_run_total [OF b r(3) c] obtain eff where
    3: "should_run (control_output_rate (link st)) send_rate (count st) = Some eff" by blast
  from enqueue_eq [OF 1 2 3] show ?thesis by blast
qed

lemma enqueue_Inr_eq:
  assumes "enqueue env st = Inr st'"
  shows "\<exists>hs rc eff. st' =
     st\<lparr>self := (self st)\<lparr>message_queue := tl (message_queue (self st))\<rparr>,
        sendq := sendq st @ pushed env st hs rc eff,
        link := (link st)\<lparr>param_recv := False, requested_params := [],
                              requested_rc_calibration := False\<rparr>\<rparr>"
proof -
  from enqueue_Inr [OF assms] obtain hs rc eff where
    "should_run (heartbeat_rate (link st)) send_rate (count st) = Some hs"
    "should_run (rc_channel_rate (link st)) send_rate (count st) = Some rc"
    "should_run (control_output_rate (link st)) send_rate (count st) = Some eff" by blast
  from enqueue_eq [OF this, of env] assms show ?thesis by auto
qed

lemma sorted_rank_const: "\<forall>x\<in>set xs. f x = (c::nat) \<Longrightarrow> sorted (map f xs)"
  by (induction xs) auto

lemma sorted_rank_append:
  "\<forall>x\<in>set xs. f x = (c::nat) \<Longrightarrow> \<forall>y\<in>set ys. c \<le> f y \<Longrightarrow> sorted (map f ys) \<Longrightarrow>
   sorted (map f (xs @ ys))"
  using sorted_rank_const [of xs f c] by (auto simp: sorted_append)

lemma rank_lower:
  assumes "\<forall>x\<in>set xs. f x = c" and "\<forall>y\<in>set ys. c' \<le> f y" and "k \<le> c" and "k \<le> c'"
  shows "\<forall>z\<in>set (xs @ ys). (k::nat) \<le> f z"
proof (intro ballI)
  fix z
  assume "z \<in> set (xs @ ys)"
  then consider "z \<in> set xs" | "z \<in> set ys" by auto
  then show "k \<le> f z"
  proof cases
    case 1
    with assms(1) have "f z = c" by blast
    with assms(3) show ?thesis by simp
  next
    case 2
    with assms(2) have "c' \<le> f z" by blast
    with assms(4) show ?thesis by linarith
  qed
qed

lemma pushed_sorted: "sorted (map stream_rank (pushed env st hs rc eff))"
proof -
  define a where "a = (if hs then send_status env (link st) (self st) (send_heartbeat []) else [])"
  define b where "b = (if param_recv (link st) then send_param env (link st) [] else [])"
  define c where "c = (if rc then send_rc_channels env [] else [])"
  define d where "d = (if eff then send_control_effort env (link st) [] else [])"
  define e where "e = snd (send_requested_params (link st) [])"
  define f where
    "f = (if requested_rc_calibration (link st) then send_rc_calibration env (link st) [] else [])"
  define g where "g = send_driver_messages (drivers env) (uasId (link st)) send_rate (count st) []"
  define h where "h = (case message_queue (self st) of [] \<Rightarrow> []
            | message # rest \<Rightarrow> send_console_message (link st) message [])"
  have a: "\<forall>x\<in>set a. stream_rank x = 0"
    by (auto simp: a_def send_status_def send_heartbeat_def Let_def)
  have b: "\<forall>x\<in>set b. stream_rank x = 1"
    by (auto simp: b_def send_param_eq)
  have c: "\<forall>x\<in>set c. stream_rank x = 2"
    by (auto simp: c_def send_rc_channels_eq)
  have d: "\<forall>x\<in>set d. stream_rank x = 3"
    by (auto simp: d_def send_control_effort_eq)
  have e: "\<forall>x\<in>set e. stream_rank x = 4"
    by (auto simp: e_def send_requested_params_eq)
  have f: "\<forall>x\<in>set f. stream_rank x = 5"
    by (auto simp: f_def send_rc_calibration_def)
  have g: "\<forall>x\<in>set g. stream_rank x = 6"
    by (auto simp: g_def send_driver_messages_eq)
  have h: "\<forall>x\<in>set h. stream_rank x = 7"
    by (auto simp: h_def send_console_message_def Let_def split: list.splits)
  have 7: "sorted (map stream_rank h)" using h by (rule sorted_rank_const)
  have l7: "\<forall>x\<in>set h. 6 \<le> stream_rank x" using h by simp
  have 6: "sorted (map stream_rank (g @ h))" using g l7 7 by (rule sorted_rank_append)
  have l6: "\<forall>x\<in>set (g @ h). 5 \<le> stream_rank x" using g l7 by (rule rank_lower) simp_all
  have 5: "sorted (map stream_rank (f @ g @ h))" using f l6 6 by (rule sorted_rank_append)
  have l5: "\<forall>x\<in>set (f @ g @ h). 4 \<le> stream_rank x" using f l6 by (rule rank_lower) simp_all
  have 4: "sorted (map stream_rank (e @ f @ g @ h))" using e l5 5 by (rule sorted_rank_append)
  have l4: "\<forall>x\<in>set (e @ f @ g @ h). 3 \<le> stream_rank x" using e l5 by (rule rank_lower) simp_all
  have 3: "sorted (map stream_rank (d @ e @ f @ g @ h))" using d l4 4 by (rule sorted_rank_append)
  have l3: "\<forall>x\<in>set (d @ e @ f @ g @ h). 2 \<le> stream_rank x" using d l4 by (rule rank_lower) simp_all
  have 2: "sorted (map stream_rank (c @ d @ e @ f @ g @ h))"
    using c l3 3 by (rule sorted_rank_append)
  have l2: "\<forall>x\<in>set (c @ d @ e @ f @ g @ h). 1 \<le> stream_rank x" using c l3 by (rule rank_lower) simp_all
  have 1: "sorted (map stream_rank (b @ c @ d @ e @ f @ g @ h))"
    using b l2 2 by (rule sorted_rank_append)
  have l1: "\<forall>x\<in>set (b @ c @ d @ e @ f @ g @ h). 0 \<le> stream_rank x" by simp
  have 0: "sorted (map stream_rank (a @ b @ c @ d @ e @ f @ g @ h))"
    using a l1 1 by (rule sorted_rank_append)
  then show ?thesis
    by (simp only: pushed_def a_def b_def c_def d_def e_def f_def g_def h_def)
qed

lemma pushed_one_console:
  "length (filter (\<lambda>p. stream_rank p = 7) (pushed env st hs rc eff)) \<le> 1"
  by (simp add: pushed_def send_status_def send_heartbeat_def Let_def send_param_eq
        send_rc_channels_eq send_control_effort_eq send_requested_params_eq
        send_rc_calibration_def send_driver_messages_eq send_console_message_def
        filter_map comp_def split_def
      split: list.splits)

section \<open>Iterations and runs\<close>

lemma send_iteration_Inr:
  "send_iteration env st = Inr st' \<Longrightarrow>
   \<exists>st1. enqueue env st = Inr st1 \<and> st' = (snd (flush st1))\<lparr>count := count (snd (flush st1)) + 1\<rparr>"
  by (auto simp: send_iteration_def split: sum.splits prod.splits)

lemma send_iteration_eq:
  "enqueue env st = Inr st1 \<Longrightarrow>
   send_iteration env st = Inr ((snd (flush st1))\<lparr>count := count (snd (flush st1)) + 1\<rparr>)"
  by (simp add: send_iteration_def split: prod.splits)

lemma enqueue_socket:
  "enqueue env st = Inr st1 \<Longrightarrow> socket (link st1) = socket (link st)"
  by (drule enqueue_Inr_eq) auto

lemma enqueue_appends:
  "enqueue env st = Inr st1 \<Longrightarrow> \<exists>pk. sendq st1 = sendq st @ pk"
  by (drule enqueue_Inr_eq) auto

lemma iteration_keeps_empty:
  assumes "fault_free st" and "sendq st = []" and "send_iteration env st = Inr st'"
  shows "fault_free st' \<and> sendq st' = []"
proof -
  from send_iteration_Inr [OF assms(3)] obtain st1 where
    e: "enqueue env st = Inr st1"
    and s: "st' = (snd (flush st1))\<lparr>count := count (snd (flush st1)) + 1\<rparr>" by blast
  from enqueue_socket [OF e] assms(1) have ff: "fault_free st1" by (simp add: fault_free_def)
  have "list_all (\<lambda>x. x = None) (drop (length (sendq st1)) (script (socket (link st1))))"
    using ff by (auto simp: fault_free_def list_all_iff dest: in_set_dropD)
  then show ?thesis using s by (simp add: flush_ok [OF ff] fault_free_def)
qed

lemma step_keeps_empty:
  assumes "fault_free st" and "sendq st = []" and "step ev st = Inr st'"
  shows "fault_free st' \<and> sendq st' = []"
proof (cases ev)
  case (Iteration env)
  with assms iteration_keeps_empty [of st env st'] show ?thesis by simp
qed (use assms in \<open>auto simp: fault_free_def\<close>)

lemma run_keeps_empty:
  "fault_free st \<Longrightarrow> sendq st = [] \<Longrightarrow> run es st = Inr st' \<Longrightarrow> fault_free st' \<and> sendq st' = []"
proof (induction es arbitrary: st)
  case Nil
  then show ?case by simp
next
  case (Cons ev es)
  from Cons.prems(3) obtain st1 where 1: "step ev st = Inr st1" and 2: "run es st1 = Inr st'"
    by (auto split: sum.splits)
  from step_keeps_empty [OF Cons.prems(1,2) 1] Cons.IH [OF _ _ 2] show ?case by blast
qed

lemma run_append:
  "run (es1 @ es2) st = (case run es1 st of Inl a \<Rightarrow> Inl a | Inr st1 \<Rightarrow> run es2 st1)"
  by (induction es1 arbitrary: st) (auto split: sum.splits)




text \<open>
  C10. When the flush loop ends without an exception, the send queue is empty and all
  its packets have been sent. From an empty queue, with no send ever throwing, a pass
  sends exactly the packets it enqueued and leaves the queue empty; in a run, every
  iteration starts from an empty queue and the run ends with an empty queue. When a send
  throws in a pass, the unsent packets are what the pass leaves in the queue, and the
  next pass pushes its packets behind them.
\<close>

theorem flush_leaves_queue_empty:
  "(fst (flush_loop (socket (link st)) (sendq st)) = None \<longrightarrow>
      sendq (snd (flush st)) = [] \<and>
      sent (socket (link (snd (flush st)))) = sent (socket (link st)) @ sendq st) \<and>
   (fault_free st \<and> sendq st = [] \<and> rates_defined st \<longrightarrow>
      (\<exists>st1 st'. enqueue env st = Inr st1 \<and> send_iteration env st = Inr st' \<and>
         sendq st' = [] \<and> fault_free st' \<and>
         sent (socket (link st')) = sent (socket (link st)) @ sendq st1)) \<and>
   (fault_free st \<and> sendq st = [] \<and> run (es1 @ Iteration env # es2) st = Inr st' \<longrightarrow>
      (\<exists>st0. run es1 st = Inr st0 \<and> sendq st0 = [] \<and> fault_free st0) \<and> sendq st' = []) \<and>
   (script (socket (link st)) = replicate j None @ Some e # rest \<and>
    enqueue env st = Inr st1 \<and> j < length (sendq st1) \<longrightarrow>
      (\<exists>st'. send_iteration env st = Inr st' \<and> sendq st' = drop j (sendq st1) \<and>
         sendq st' \<noteq> [] \<and>
         (\<forall>env' st2. enqueue env' st' = Inr st2 \<longrightarrow>
            (\<exists>pk. sendq st2 = drop j (sendq st1) @ pk))))"
proof -
  have p1: "fst (flush_loop (socket (link st)) (sendq st)) = None \<longrightarrow>
      sendq (snd (flush st)) = [] \<and>
      sent (socket (link (snd (flush st)))) = sent (socket (link st)) @ sendq st"
  proof
    assume ok: "fst (flush_loop (socket (link st)) (sendq st)) = None"
    obtain r s' q' where f: "flush_loop (socket (link st)) (sendq st) = (r, s', q')"
      by (cases "flush_loop (socket (link st)) (sendq st)") auto
    with ok have r: "r = None" by simp
    from flush_loop_fifo [OF f] r have "sent s' = sent (socket (link st)) @ sendq st" "q' = []"
      by auto
    then show "sendq (snd (flush st)) = [] \<and>
        sent (socket (link (snd (flush st)))) = sent (socket (link st)) @ sendq st"
      using f r by (simp add: flush_def)
  qed
  have p2: "fault_free st \<and> sendq st = [] \<and> rates_defined st \<longrightarrow>
      (\<exists>st1 st'. enqueue env st = Inr st1 \<and> send_iteration env st = Inr st' \<and>
         sendq st' = [] \<and> fault_free st' \<and>
         sent (socket (link st')) = sent (socket (link st)) @ sendq st1)"
  proof
    assume a: "fault_free st \<and> sendq st = [] \<and> rates_defined st"
    from enqueue_total [of st env] a obtain st1 where e: "enqueue env st = Inr st1" by blast
    define st' where "st' = (snd (flush st1))\<lparr>count := count (snd (flush st1)) + 1\<rparr>"
    have i: "send_iteration env st = Inr st'"
      unfolding st'_def by (rule send_iteration_eq [OF e])
    from iteration_keeps_empty [OF _ _ i] a have k: "fault_free st'" "sendq st' = []" by simp_all
    from enqueue_socket [OF e] a
    have ff: "fault_free st1" and so: "socket (link st1) = socket (link st)"
      by (simp_all add: fault_free_def)
    have "sent (socket (link st')) = sent (socket (link st)) @ sendq st1"
      unfolding st'_def by (simp add: flush_ok [OF ff] so)
    with e i k show "\<exists>st1 st'. enqueue env st = Inr st1 \<and> send_iteration env st = Inr st' \<and>
         sendq st' = [] \<and> fault_free st' \<and>
         sent (socket (link st')) = sent (socket (link st)) @ sendq st1" by blast
  qed
  have p3: "fault_free st \<and> sendq st = [] \<and> run (es1 @ Iteration env # es2) st = Inr st' \<longrightarrow>
      (\<exists>st0. run es1 st = Inr st0 \<and> sendq st0 = [] \<and> fault_free st0) \<and> sendq st' = []"
  proof
    assume a: "fault_free st \<and> sendq st = [] \<and> run (es1 @ Iteration env # es2) st = Inr st'"
    then obtain st0 where r: "run es1 st = Inr st0"
      by (auto simp: run_append split: sum.splits)
    from run_keeps_empty [OF _ _ r] a
    have "\<exists>st0. run es1 st = Inr st0 \<and> sendq st0 = [] \<and> fault_free st0" using r by blast
    moreover from a run_keeps_empty [of st "es1 @ Iteration env # es2" st']
    have "sendq st' = []" by blast
    ultimately show "(\<exists>st0. run es1 st = Inr st0 \<and> sendq st0 = [] \<and> fault_free st0) \<and>
      sendq st' = []" by blast
  qed
  have p4: "script (socket (link st)) = replicate j None @ Some e # rest \<and>
    enqueue env st = Inr st1 \<and> j < length (sendq st1) \<longrightarrow>
      (\<exists>st'. send_iteration env st = Inr st' \<and> sendq st' = drop j (sendq st1) \<and>
         sendq st' \<noteq> [] \<and>
         (\<forall>env' st2. enqueue env' st' = Inr st2 \<longrightarrow>
            (\<exists>pk. sendq st2 = drop j (sendq st1) @ pk)))"
  proof
    assume a: "script (socket (link st)) = replicate j None @ Some e # rest \<and>
      enqueue env st = Inr st1 \<and> j < length (sendq st1)"
    then have e: "enqueue env st = Inr st1" and j: "j < length (sendq st1)" by simp_all
    from enqueue_socket [OF e] a
    have s: "script (socket (link st1)) = replicate j None @ Some e # rest" by simp
    define st' where "st' = (snd (flush st1))\<lparr>count := count (snd (flush st1)) + 1\<rparr>"
    have i: "send_iteration env st = Inr st'"
      unfolding st'_def by (rule send_iteration_eq [OF e])
    have q: "sendq st' = drop j (sendq st1)"
      unfolding st'_def by (simp add: flush_fault [OF s j])
    have ne: "sendq st' \<noteq> []" using q j by simp
    have "\<exists>pk. sendq st2 = drop j (sendq st1) @ pk" if "enqueue env' st' = Inr st2" for env' st2
      using enqueue_appends [OF that] q by simp
    with i q ne show "\<exists>st'. send_iteration env st = Inr st' \<and> sendq st' = drop j (sendq st1) \<and>
         sendq st' \<noteq> [] \<and>
         (\<forall>env' st2. enqueue env' st' = Inr st2 \<longrightarrow>
            (\<exists>pk. sendq st2 = drop j (sendq st1) @ pk))" by blast
  qed
  show ?thesis by (rule conjI [OF p1 conjI [OF p2 conjI [OF p3 p4]]])
qed

lemma scenario_dispatch_eq:
  "scenario_dispatch =
     \<lparr>self = \<lparr>qgc = Some QGCLink_getInstance, servo_source = NUM_AUTOPILOT_MODES, pilot_mode = PILOT_AUTO,
              filter_state = NUM_GX3_MODES, control_mode = Mode_Position_Hold_PID,
              attitude_source = True, startTime = 42, send_queue = 0, message_queue = [],
              attitude_source_connection = True\<rparr>,
      sendq = [], link = scenario_link, count = 0\<rparr>"
  by (simp add: scenario_dispatch_def send_enter_def scenario_memory_def blank_memory_def QGCSend_ctor_def
        new_queue_def scenario_producers_def Let_def)

lemma resize_eq: "resize n s = take n s @ replicate (n - length s) (CHR 0x00)"
  by (simp add: resize_def)

lemma pushed_console_last:
  assumes "message_queue (self st) = message # rest"
  shows "\<exists>pk. pushed env st hs rc eff =
           pk @ [STATUSTEXT (uasId (link st)) (if prefix ''Critical'' message then 255 else 0)
                   (resize 50 message)] \<and>
           (\<forall>p\<in>set pk. stream_rank p < 7)"
proof -
  define pk where "pk =
     (if hs then send_status env (link st) (self st) (send_heartbeat []) else []) @
     (if param_recv (link st) then send_param env (link st) [] else []) @
     (if rc then send_rc_channels env [] else []) @
     (if eff then send_control_effort env (link st) [] else []) @
     snd (send_requested_params (link st) []) @
     (if requested_rc_calibration (link st) then send_rc_calibration env (link st) [] else []) @
     send_driver_messages (drivers env) (uasId (link st)) send_rate (count st) []"
  have 1: "pushed env st hs rc eff =
           pk @ [STATUSTEXT (uasId (link st)) (if prefix ''Critical'' message then 255 else 0)
                   (resize 50 message)]"
    using assms
    by (simp add: pushed_def pk_def send_console_message_def Let_def starts_with_Critical)
  have 2: "\<forall>p\<in>set pk. stream_rank p < 7"
    by (auto simp: pk_def send_status_def send_heartbeat_def Let_def send_param_eq
          send_rc_channels_eq send_control_effort_eq send_requested_params_eq
          send_rc_calibration_def send_driver_messages_eq)
  from 1 2 show ?thesis by blast
qed

section \<open>Console messages\<close>

lemma should_run_disabled: "should_run 0 b n = Some False"
  by (simp add: should_run_def)

lemma scenario_first_pass:
  "run [Console ''Critical: overheat'', Console ''Warning: low battery'',
        Iteration scenario_producers] scenario_dispatch =
   Inr (scenario_dispatch
     \<lparr>self := (self scenario_dispatch)\<lparr>message_queue := [''Warning: low battery'']\<rparr>,
      link := scenario_link
        \<lparr>socket := \<lparr>sent = [STATUSTEXT 100 255 (resize 50 ''Critical: overheat'')],
                     attempted = [STATUSTEXT 100 255 (resize 50 ''Critical: overheat'')],
                     script = []\<rparr>\<rparr>,
      count := 1\<rparr>)"
  by (simp add: scenario_dispatch_eq scenario_link_def scenario_producers_def
        message_queue_push_def send_iteration_def enqueue_def and_then_def
        status_statement_def param_statement_def rc_statement_def effort_statement_def
        requested_statement_def calibration_statement_def driver_statement_def
        console_statement_def should_run_disabled message_queue_empty_def
        message_queue_pop_def send_console_message_def Let_def starts_with_Critical
        flush_def send_to_def)

lemma scenario_second_pass:
  "run [Iteration scenario_producers]
     (scenario_dispatch
     \<lparr>self := (self scenario_dispatch)\<lparr>message_queue := [''Warning: low battery'']\<rparr>,
      link := scenario_link
        \<lparr>socket := \<lparr>sent = [STATUSTEXT 100 255 (resize 50 ''Critical: overheat'')],
                     attempted = [STATUSTEXT 100 255 (resize 50 ''Critical: overheat'')],
                     script = []\<rparr>\<rparr>,
      count := 1\<rparr>) =
   Inr (scenario_dispatch
     \<lparr>self := (self scenario_dispatch)\<lparr>message_queue := []\<rparr>,
      link := scenario_link
        \<lparr>socket := \<lparr>sent = [STATUSTEXT 100 255 (resize 50 ''Critical: overheat''),
                             STATUSTEXT 100 0 (resize 50 ''Warning: low battery'')],
                     attempted = [STATUSTEXT 100 255 (resize 50 ''Critical: overheat''),
                                  STATUSTEXT 100 0 (resize 50 ''Warning: low battery'')],
                     script = []\<rparr>\<rparr>,
      count := 2\<rparr>)"
  by (simp add: scenario_dispatch_eq scenario_link_def scenario_producers_def
        message_queue_push_def send_iteration_def enqueue_def and_then_def
        status_statement_def param_statement_def rc_statement_def effort_statement_def
        requested_statement_def calibration_statement_def driver_statement_def
        console_statement_def should_run_disabled message_queue_empty_def
        message_queue_pop_def send_console_message_def Let_def starts_with_Critical
        flush_def send_to_def)

text \<open>
  C7. The console encoder pushes one status text whose text is the message cut or
  padded with NUL characters to 50 characters, and whose severity is 255 when the
  message begins with \<open>Critical\<close>, exactly so written, and 0 otherwise. A pass with a
  non-empty mailbox pops the oldest message and pushes its packet last. \<open>Critical:
  overheat\<close> and \<open>Warning: low battery\<close>, pushed in this order, go out in the next two
  passes, one per pass, with severity 255 and 0.
\<close>

theorem console_message_encoding:
  "send_console_message lnk message q =
     q @ [STATUSTEXT (uasId lnk) (if prefix ''Critical'' message then 255 else 0)
            (take 50 message @ replicate (50 - length message) (CHR 0x00))] \<and>
   length (take 50 message @ replicate (50 - length message) (CHR 0x00)) = 50 \<and>
   (message_queue (self st) = message # rest \<and> enqueue env st = Inr st1 \<longrightarrow>
      message_queue (self st1) = rest \<and>
      (\<exists>pk. sendq st1 =
              sendq st @ pk @
              [STATUSTEXT (uasId (link st)) (if prefix ''Critical'' message then 255 else 0)
                 (take 50 message @ replicate (50 - length message) (CHR 0x00))] \<and>
            (\<forall>p\<in>set pk. stream_rank p < 7))) \<and>
   (\<exists>s1 s2.
      run [Console ''Critical: overheat'', Console ''Warning: low battery'',
           Iteration scenario_producers] scenario_dispatch = Inr s1 \<and>
      sent (socket (link s1)) = [STATUSTEXT 100 255 (resize 50 ''Critical: overheat'')] \<and>
      run [Iteration scenario_producers] s1 = Inr s2 \<and>
      sent (socket (link s2)) =
        [STATUSTEXT 100 255 (resize 50 ''Critical: overheat''),
         STATUSTEXT 100 0 (resize 50 ''Warning: low battery'')])"
proof -
  have p1: "send_console_message lnk message q =
     q @ [STATUSTEXT (uasId lnk) (if prefix ''Critical'' message then 255 else 0)
            (take 50 message @ replicate (50 - length message) (CHR 0x00))]"
    unfolding send_console_message_def Let_def starts_with_Critical by (simp add: resize_eq)
  have p2: "length (take 50 message @ replicate (50 - length message) (CHR 0x00)) = 50"
    by simp
  have p3: "message_queue (self st) = message # rest \<and> enqueue env st = Inr st1 \<longrightarrow>
      message_queue (self st1) = rest \<and>
      (\<exists>pk. sendq st1 =
              sendq st @ pk @
              [STATUSTEXT (uasId (link st)) (if prefix ''Critical'' message then 255 else 0)
                 (take 50 message @ replicate (50 - length message) (CHR 0x00))] \<and>
            (\<forall>p\<in>set pk. stream_rank p < 7))"
  proof
    assume a: "message_queue (self st) = message # rest \<and> enqueue env st = Inr st1"
    from enqueue_Inr_eq [of env st st1] a obtain hs rc eff where
      st1: "st1 = st\<lparr>self := (self st)\<lparr>message_queue := tl (message_queue (self st))\<rparr>,
        sendq := sendq st @ pushed env st hs rc eff,
        link := (link st)\<lparr>param_recv := False, requested_params := [],
                              requested_rc_calibration := False\<rparr>\<rparr>" by blast
    from pushed_console_last [of st message rest env hs rc eff] a obtain pk where
      pk: "pushed env st hs rc eff =
           pk @ [STATUSTEXT (uasId (link st)) (if prefix ''Critical'' message then 255 else 0)
                   (resize 50 message)]" "\<forall>p\<in>set pk. stream_rank p < 7" by blast
    have "message_queue (self st1) = rest" using a by (simp add: st1)
    moreover have "sendq st1 =
              sendq st @ pk @
              [STATUSTEXT (uasId (link st)) (if prefix ''Critical'' message then 255 else 0)
                 (take 50 message @ replicate (50 - length message) (CHR 0x00))]"
      by (simp add: st1 pk(1) resize_eq)
    ultimately show "message_queue (self st1) = rest \<and>
      (\<exists>pk. sendq st1 =
              sendq st @ pk @
              [STATUSTEXT (uasId (link st)) (if prefix ''Critical'' message then 255 else 0)
                 (take 50 message @ replicate (50 - length message) (CHR 0x00))] \<and>
            (\<forall>p\<in>set pk. stream_rank p < 7))" using pk(2) by blast
  qed
  have p4: "\<exists>s1 s2.
      run [Console ''Critical: overheat'', Console ''Warning: low battery'',
           Iteration scenario_producers] scenario_dispatch = Inr s1 \<and>
      sent (socket (link s1)) = [STATUSTEXT 100 255 (resize 50 ''Critical: overheat'')] \<and>
      run [Iteration scenario_producers] s1 = Inr s2 \<and>
      sent (socket (link s2)) =
        [STATUSTEXT 100 255 (resize 50 ''Critical: overheat''),
         STATUSTEXT 100 0 (resize 50 ''Warning: low battery'')]"
    by (intro exI conjI, rule scenario_first_pass, simp, rule scenario_second_pass, simp)
  show ?thesis by (rule conjI [OF p1 conjI [OF p2 conjI [OF p3 p4]]])
qed

text \<open>C7 for a pass with one message in the mailbox.\<close>

theorem console_message_encoding_witness:
  "message_queue (self (scenario_dispatch
      \<lparr>self := (self scenario_dispatch)\<lparr>message_queue := [''Critical: overheat'']\<rparr>\<rparr>)) =
     ''Critical: overheat'' # [] \<and>
   enqueue scenario_producers (scenario_dispatch
      \<lparr>self := (self scenario_dispatch)\<lparr>message_queue := [''Critical: overheat'']\<rparr>\<rparr>) =
     Inr (scenario_dispatch
      \<lparr>sendq := [STATUSTEXT 100 255 (resize 50 ''Critical: overheat'')]\<rparr>) \<and>
   message_queue (self (scenario_dispatch
      \<lparr>sendq := [STATUSTEXT 100 255 (resize 50 ''Critical: overheat'')]\<rparr>)) = []"
proof -
  let ?st = "scenario_dispatch
      \<lparr>self := (self scenario_dispatch)\<lparr>message_queue := [''Critical: overheat'']\<rparr>\<rparr>"
  let ?st1 = "scenario_dispatch
      \<lparr>sendq := [STATUSTEXT 100 255 (resize 50 ''Critical: overheat'')]\<rparr>"
  have a: "message_queue (self ?st) = ''Critical: overheat'' # []" by simp
  have b: "enqueue scenario_producers ?st = Inr ?st1"
    by (simp add: scenario_dispatch_eq scenario_link_def scenario_producers_def
        enqueue_def and_then_def
        status_statement_def param_statement_def rc_statement_def effort_statement_def
        requested_statement_def calibration_statement_def driver_statement_def
        console_statement_def should_run_disabled message_queue_empty_def
        message_queue_pop_def send_console_message_def Let_def starts_with_Critical)
  from console_message_encoding [THEN conjunct2, THEN conjunct2, THEN conjunct1, THEN mp,
    OF conjI [OF a b], THEN conjunct1]
  have "message_queue (self ?st1) = []" .
  with a b show ?thesis by blast
qed

lemma flush_self: "self (snd (flush st)) = self st"
  using flush_fifo [of st] by blast

lemma iteration_modes:
  assumes "send_iteration env st = Inr st'"
  shows "servo_source (self st') = servo_source (self st)"
    and "pilot_mode (self st') = pilot_mode (self st)"
    and "filter_state (self st') = filter_state (self st)"
    and "control_mode (self st') = control_mode (self st)"
    and "attitude_source (self st') = attitude_source (self st)"
proof -
  from send_iteration_Inr [OF assms] obtain st1 where
    e: "enqueue env st = Inr st1"
    and s: "st' = (snd (flush st1))\<lparr>count := count (snd (flush st1)) + 1\<rparr>" by blast
  from enqueue_Inr_eq [OF e]
  have 1: "self st1 = (self st)\<lparr>message_queue := tl (message_queue (self st))\<rparr>" by auto
  have 2: "self st' = self st1" using s by (simp add: flush_self)
  show "servo_source (self st') = servo_source (self st)"
    and "pilot_mode (self st') = pilot_mode (self st)"
    and "filter_state (self st') = filter_state (self st)"
    and "control_mode (self st') = control_mode (self st)"
    and "attitude_source (self st') = attitude_source (self st)"
    by (simp_all add: 1 2)
qed

lemma step_servo_source:
  "step ev st = Inr st' \<Longrightarrow> \<forall>v. ev \<noteq> Servo_source_changed v \<Longrightarrow>
   servo_source (self st') = servo_source (self st)"
  by (cases ev)
     (auto simp: iteration_modes set_pilot_mode_def set_filter_state_def set_control_mode_def
        set_attitude_source_def message_queue_push_def)

lemma step_pilot_mode:
  "step ev st = Inr st' \<Longrightarrow> \<forall>v. ev \<noteq> Pilot_mode_changed v \<Longrightarrow>
   pilot_mode (self st') = pilot_mode (self st)"
  by (cases ev)
     (auto simp: iteration_modes set_servo_source_def set_filter_state_def set_control_mode_def
        set_attitude_source_def message_queue_push_def)

lemma step_filter_state:
  "step ev st = Inr st' \<Longrightarrow> \<forall>v. ev \<noteq> Gx3_mode_changed v \<Longrightarrow>
   filter_state (self st') = filter_state (self st)"
  by (cases ev)
     (auto simp: iteration_modes set_servo_source_def set_pilot_mode_def set_control_mode_def
        set_attitude_source_def message_queue_push_def)

lemma step_control_mode:
  "step ev st = Inr st' \<Longrightarrow> \<forall>v. ev \<noteq> Control_mode_changed v \<Longrightarrow>
   control_mode (self st') = control_mode (self st)"
  by (cases ev)
     (auto simp: iteration_modes set_servo_source_def set_pilot_mode_def set_filter_state_def
        set_attitude_source_def message_queue_push_def)

lemma step_attitude_source:
  "step ev st = Inr st' \<Longrightarrow> \<forall>v. ev \<noteq> Attitude_source_changed v \<Longrightarrow>
   attitude_source (self st') = attitude_source (self st)"
  by (cases ev)
     (auto simp: iteration_modes set_servo_source_def set_pilot_mode_def set_filter_state_def
        set_control_mode_def message_queue_push_def)

lemma run_servo_source:
  "run es st = Inr st' \<Longrightarrow> \<forall>v. Servo_source_changed v \<notin> set es \<Longrightarrow>
   servo_source (self st') = servo_source (self st)"
proof (induction es arbitrary: st)
  case Nil
  then show ?case by simp
next
  case (Cons ev es)
  from Cons.prems(1) obtain st1 where 1: "step ev st = Inr st1" and 2: "run es st1 = Inr st'"
    by (auto split: sum.splits)
  from Cons.prems(2) have "\<forall>v. ev \<noteq> Servo_source_changed v" "\<forall>v. Servo_source_changed v \<notin> set es"
    by auto
  with step_servo_source [OF 1] Cons.IH [OF 2] show ?case by simp
qed

lemma run_pilot_mode:
  "run es st = Inr st' \<Longrightarrow> \<forall>v. Pilot_mode_changed v \<notin> set es \<Longrightarrow>
   pilot_mode (self st') = pilot_mode (self st)"
proof (induction es arbitrary: st)
  case Nil
  then show ?case by simp
next
  case (Cons ev es)
  from Cons.prems(1) obtain st1 where 1: "step ev st = Inr st1" and 2: "run es st1 = Inr st'"
    by (auto split: sum.splits)
  from Cons.prems(2) have "\<forall>v. ev \<noteq> Pilot_mode_changed v" "\<forall>v. Pilot_mode_changed v \<notin> set es"
    by auto
  with step_pilot_mode [OF 1] Cons.IH [OF 2] show ?case by simp
qed

lemma run_filter_state:
  "run es st = Inr st' \<Longrightarrow> \<forall>v. Gx3_mode_changed v \<notin> set es \<Longrightarrow>
   filter_state (self st') = filter_state (self st)"
proof (induction es arbitrary: st)
  case Nil
  then show ?case by simp
next
  case (Cons ev es)
  from Cons.prems(1) obtain st1 where 1: "step ev st = Inr st1" and 2: "run es st1 = Inr st'"
    by (auto split: sum.splits)
  from Cons.prems(2) have "\<forall>v. ev \<noteq> Gx3_mode_changed v" "\<forall>v. Gx3_mode_changed v \<notin> set es"
    by auto
  with step_filter_state [OF 1] Cons.IH [OF 2] show ?case by simp
qed

lemma run_control_mode:
  "run es st = Inr st' \<Longrightarrow> \<forall>v. Control_mode_changed v \<notin> set es \<Longrightarrow>
   control_mode (self st') = control_mode (self st)"
proof (induction es arbitrary: st)
  case Nil
  then show ?case by simp
next
  case (Cons ev es)
  from Cons.prems(1) obtain st1 where 1: "step ev st = Inr st1" and 2: "run es st1 = Inr st'"
    by (auto split: sum.splits)
  from Cons.prems(2) have "\<forall>v. ev \<noteq> Control_mode_changed v" "\<forall>v. Control_mode_changed v \<notin> set es"
    by auto
  with step_control_mode [OF 1] Cons.IH [OF 2] show ?case by simp
qed

lemma run_attitude_source:
  "run es st = Inr st' \<Longrightarrow> \<forall>v. Attitude_source_changed v \<notin> set es \<Longrightarrow>
   attitude_source (self st') = attitude_source (self st)"
proof (induction es arbitrary: st)
  case Nil
  then show ?case by simp
next
  case (Cons ev es)
  from Cons.prems(1) obtain st1 where 1: "step ev st = Inr st1" and 2: "run es st1 = Inr st'"
    by (auto split: sum.splits)
  from Cons.prems(2) have "\<forall>v. ev \<noteq> Attitude_source_changed v"
    "\<forall>v. Attitude_source_changed v \<notin> set es"
    by auto
  with step_attitude_source [OF 1] Cons.IH [OF 2] show ?case by simp
qed

text \<open>
  C8, as the code has it. After construction the getters of \<open>servo_source\<close>,
  \<open>pilot_mode\<close>, \<open>filter_state\<close> and \<open>control_mode\<close> return the counting enumerator of their
  type, and \<open>attitude_source\<close> returns \<open>true\<close>. Once \<^verbatim>\<open>send()\<close> runs, \<open>servo_source\<close> and
  \<open>filter_state\<close> keep that unset value until their first notification, \<open>pilot_mode\<close>
  and \<open>control_mode\<close> hold until theirs what the producers returned to the direct
  queries at the start of \<^verbatim>\<open>send()\<close>, and \<open>attitude_source\<close> stays \<open>true\<close>.
\<close>

theorem unset_modes_before_notification:
  "get_servo_source (objects (QGCSend_ctor this parent now m) this) = NUM_AUTOPILOT_MODES \<and>
   get_pilot_mode (objects (QGCSend_ctor this parent now m) this) = NUM_PILOT_MODES \<and>
   get_filter_state (objects (QGCSend_ctor this parent now m) this) = NUM_GX3_MODES \<and>
   get_control_mode (objects (QGCSend_ctor this parent now m) this) = Num_Controller_Modes \<and>
   get_attitude_source (objects (QGCSend_ctor this parent now m) this) = True \<and>
   (run es (send_enter env lnk this (QGCSend_ctor this parent now m)) = Inr st' \<longrightarrow>
      ((\<forall>v. Servo_source_changed v \<notin> set es) \<longrightarrow>
         get_servo_source (self st') = NUM_AUTOPILOT_MODES) \<and>
      ((\<forall>v. Gx3_mode_changed v \<notin> set es) \<longrightarrow>
         get_filter_state (self st') = NUM_GX3_MODES) \<and>
      ((\<forall>v. Pilot_mode_changed v \<notin> set es) \<longrightarrow>
         get_pilot_mode (self st') = switch_pilot_mode env) \<and>
      ((\<forall>v. Control_mode_changed v \<notin> set es) \<longrightarrow>
         get_control_mode (self st') = controller_mode env) \<and>
      ((\<forall>v. Attitude_source_changed v \<notin> set es) \<longrightarrow>
         get_attitude_source (self st') = True))"
proof -
  let ?m = "QGCSend_ctor this parent now m"
  have c: "get_servo_source (objects ?m this) = NUM_AUTOPILOT_MODES"
    "get_pilot_mode (objects ?m this) = NUM_PILOT_MODES"
    "get_filter_state (objects ?m this) = NUM_GX3_MODES"
    "get_control_mode (objects ?m this) = Num_Controller_Modes"
    "get_attitude_source (objects ?m this) = True"
    by (simp_all add: QGCSend_ctor_def new_queue_def get_servo_source_def get_pilot_mode_def
          get_filter_state_def get_control_mode_def get_attitude_source_def)
  have s: "servo_source (self (send_enter env lnk this ?m)) = NUM_AUTOPILOT_MODES"
    "filter_state (self (send_enter env lnk this ?m)) = NUM_GX3_MODES"
    "pilot_mode (self (send_enter env lnk this ?m)) = switch_pilot_mode env"
    "control_mode (self (send_enter env lnk this ?m)) = controller_mode env"
    "attitude_source (self (send_enter env lnk this ?m)) = True"
    by (simp_all add: send_enter_def QGCSend_ctor_def new_queue_def Let_def)
  have r: "((\<forall>v. Servo_source_changed v \<notin> set es) \<longrightarrow>
         get_servo_source (self st') = NUM_AUTOPILOT_MODES) \<and>
      ((\<forall>v. Gx3_mode_changed v \<notin> set es) \<longrightarrow>
         get_filter_state (self st') = NUM_GX3_MODES) \<and>
      ((\<forall>v. Pilot_mode_changed v \<notin> set es) \<longrightarrow>
         get_pilot_mode (self st') = switch_pilot_mode env) \<and>
      ((\<forall>v. Control_mode_changed v \<notin> set es) \<longrightarrow>
         get_control_mode (self st') = controller_mode env) \<and>
      ((\<forall>v. Attitude_source_changed v \<notin> set es) \<longrightarrow>
         get_attitude_source (self st') = True)"
    if run: "run es (send_enter env lnk this ?m) = Inr st'"
    using run_servo_source [OF run] run_filter_state [OF run] run_pilot_mode [OF run]
      run_control_mode [OF run] run_attitude_source [OF run] s
    by (simp add: get_servo_source_def get_pilot_mode_def get_filter_state_def
          get_control_mode_def get_attitude_source_def)
  from c r show ?thesis by blast
qed

text \<open>C8 for a run with two console texts and one pass, and no notification.\<close>

theorem unset_modes_before_notification_witness:
  "run [Console ''Critical: overheat'', Console ''Warning: low battery'',
        Iteration scenario_producers]
     (send_enter scenario_producers scenario_link 0 (QGCSend_ctor 0 None 42 blank_memory)) =
   Inr (scenario_dispatch
     \<lparr>self := (self scenario_dispatch)\<lparr>message_queue := [''Warning: low battery'']\<rparr>,
      link := scenario_link
        \<lparr>socket := \<lparr>sent = [STATUSTEXT 100 255 (resize 50 ''Critical: overheat'')],
                     attempted = [STATUSTEXT 100 255 (resize 50 ''Critical: overheat'')],
                     script = []\<rparr>\<rparr>,
      count := 1\<rparr>) \<and>
   get_servo_source (self (scenario_dispatch
     \<lparr>self := (self scenario_dispatch)\<lparr>message_queue := [''Warning: low battery'']\<rparr>,
      link := scenario_link
        \<lparr>socket := \<lparr>sent = [STATUSTEXT 100 255 (resize 50 ''Critical: overheat'')],
                     attempted = [STATUSTEXT 100 255 (resize 50 ''Critical: overheat'')],
                     script = []\<rparr>\<rparr>,
      count := 1\<rparr>)) = NUM_AUTOPILOT_MODES \<and>
   get_pilot_mode (self (scenario_dispatch
     \<lparr>self := (self scenario_dispatch)\<lparr>message_queue := [''Warning: low battery'']\<rparr>,
      link := scenario_link
        \<lparr>socket := \<lparr>sent = [STATUSTEXT 100 255 (resize 50 ''Critical: overheat'')],
                     attempted = [STATUSTEXT 100 255 (resize 50 ''Critical: overheat'')],
                     script = []\<rparr>\<rparr>,
      count := 1\<rparr>)) = switch_pilot_mode scenario_producers"
proof -
  let ?es = "[Console ''Critical: overheat'', Console ''Warning: low battery'',
        Iteration scenario_producers]"
  let ?st' = "scenario_dispatch
     \<lparr>self := (self scenario_dispatch)\<lparr>message_queue := [''Warning: low battery'']\<rparr>,
      link := scenario_link
        \<lparr>socket := \<lparr>sent = [STATUSTEXT 100 255 (resize 50 ''Critical: overheat'')],
                     attempted = [STATUSTEXT 100 255 (resize 50 ''Critical: overheat'')],
                     script = []\<rparr>\<rparr>,
      count := 1\<rparr>"
  have r: "run ?es (send_enter scenario_producers scenario_link 0
                     (QGCSend_ctor 0 None 42 blank_memory)) = Inr ?st'"
    using scenario_first_pass by (simp only: scenario_dispatch_def scenario_memory_def)
  have n1: "\<forall>v. Servo_source_changed v \<notin> set ?es" by simp
  have n2: "\<forall>v. Pilot_mode_changed v \<notin> set ?es" by simp
  note t = unset_modes_before_notification
    [of 0 None 42 blank_memory ?es scenario_producers scenario_link ?st',
     THEN conjunct2, THEN conjunct2, THEN conjunct2, THEN conjunct2, THEN conjunct2,
     THEN mp, OF r]
  from t [THEN conjunct1, THEN mp, OF n1]
  have a: "get_servo_source (self ?st') = NUM_AUTOPILOT_MODES" .
  from t [THEN conjunct2, THEN conjunct2, THEN conjunct1, THEN mp, OF n2]
  have b: "get_pilot_mode (self ?st') = switch_pilot_mode scenario_producers" .
  from r a b show ?thesis by blast
qed

text \<open>
  The claim C8 as it is worded fails: before any notification \<open>attitude_source\<close> reads
  \<open>true\<close>, and in the started loop \<open>pilot_mode\<close> and \<open>control_mode\<close> read the producers'
  values, which are not the unset ones.
\<close>

theorem valid_value_before_notification_counterexample:
  "get_attitude_source (objects scenario_memory 0) = True \<and>
   run [] scenario_dispatch = Inr scenario_dispatch \<and>
   get_pilot_mode (self scenario_dispatch) = PILOT_AUTO \<and>
   get_control_mode (self scenario_dispatch) = Mode_Position_Hold_PID \<and>
   PILOT_AUTO \<noteq> NUM_PILOT_MODES \<and> Mode_Position_Hold_PID \<noteq> Num_Controller_Modes"
  by (simp add: scenario_dispatch_eq scenario_memory_def blank_memory_def QGCSend_ctor_def
        new_queue_def get_attitude_source_def get_pilot_mode_def get_control_mode_def)

section \<open>Passes that push packets\<close>

lemmas pass_defs =
  send_iteration_def enqueue_def and_then_def
  status_statement_def param_statement_def rc_statement_def effort_statement_def
  requested_statement_def calibration_statement_def driver_statement_def
  console_statement_def message_queue_empty_def
  message_queue_pop_def send_console_message_def Let_def starts_with_Critical
  flush_def send_to_def should_run_def int_div_def int_mod_def INT_MIN_def send_rate_def
  send_heartbeat_def send_status_def get_servo_source_def get_pilot_mode_def
  get_filter_state_def get_control_mode_def get_attitude_source_def
  servo_source_code_def filter_state_code_def pilot_mode_code_def control_mode_code_def
  trajectory_code_def

lemma busy_dispatch_eq:
  "busy_dispatch =
     \<lparr>self = \<lparr>qgc = Some QGCLink_getInstance, servo_source = NUM_AUTOPILOT_MODES,
              pilot_mode = PILOT_AUTO, filter_state = NUM_GX3_MODES,
              control_mode = Mode_Position_Hold_PID, attitude_source = True, startTime = 42,
              send_queue = 0,
              message_queue = [''Critical: overheat'', ''Warning: low battery''],
              attitude_source_connection = True\<rparr>,
      sendq = [], link = scenario_link\<lparr>heartbeat_rate := 200\<rparr>, count = 0\<rparr>"
  by (simp add: busy_dispatch_def scenario_dispatch_eq)

lemma busy_enqueue:
  "enqueue scenario_producers busy_dispatch =
     Inr (busy_dispatch
       \<lparr>self := (self busy_dispatch)\<lparr>message_queue := [''Warning: low battery'']\<rparr>,
        sendq := [HEARTBEAT, scenario_status,
                  STATUSTEXT 100 255 (resize 50 ''Critical: overheat'')]\<rparr>)"
  by (simp add: busy_dispatch_eq scenario_link_def scenario_producers_def scenario_status_def
        pass_defs)

lemma faulted_enqueue:
  "enqueue scenario_producers faulted_pass_dispatch =
     Inr (faulted_pass_dispatch
       \<lparr>self := (self busy_dispatch)\<lparr>message_queue := [''Warning: low battery'']\<rparr>,
        sendq := [HEARTBEAT, scenario_status,
                  STATUSTEXT 100 255 (resize 50 ''Critical: overheat'')]\<rparr>)"
  by (simp add: faulted_pass_dispatch_def busy_dispatch_eq scenario_link_def
        scenario_producers_def scenario_status_def pass_defs)

lemma faulted_first_pass:
  "sent (socket (link (projr (run [Iteration scenario_producers] faulted_pass_dispatch)))) = []"
  by (simp add: faulted_pass_dispatch_def busy_dispatch_eq scenario_link_def
        scenario_producers_def scenario_status_def pass_defs)

lemma faulted_two_passes:
  "run [Iteration scenario_producers, Iteration scenario_producers] faulted_pass_dispatch =
     Inr (faulted_pass_dispatch
       \<lparr>self := (self busy_dispatch)\<lparr>message_queue := []\<rparr>,
        link := scenario_link
          \<lparr>heartbeat_rate := 200,
           socket := \<lparr>sent = [HEARTBEAT, scenario_status,
                               STATUSTEXT 100 255 (resize 50 ''Critical: overheat''),
                               HEARTBEAT, scenario_status,
                               STATUSTEXT 100 0 (resize 50 ''Warning: low battery'')],
                       attempted = [HEARTBEAT, HEARTBEAT, scenario_status,
                               STATUSTEXT 100 255 (resize 50 ''Critical: overheat''),
                               HEARTBEAT, scenario_status,
                               STATUSTEXT 100 0 (resize 50 ''Warning: low battery'')],
                       script = []\<rparr>,
           warnings := [''Network is unreachable'']\<rparr>,
        count := 2\<rparr>)"
  by (simp add: faulted_pass_dispatch_def busy_dispatch_eq scenario_link_def
        scenario_producers_def scenario_status_def pass_defs)

lemma pushed_explicit:
  "pushed env st hs rc eff =
     (if hs
      then [HEARTBEAT,
            UALBERTA_SYS_STATUS
              \<lparr>status_system = uasId (link st),
               qgc_servo_source = servo_source_code (get_servo_source (self st)),
               qgc_filter_state = filter_state_code (get_filter_state (self st)),
               qgc_pilot_mode =
                 pilot_mode_code
                   (if get_pilot_mode (self st) = NUM_PILOT_MODES then switch_pilot_mode env
                    else get_pilot_mode (self st)),
               qgc_control_mode = control_mode_code (get_control_mode (self st)),
               qgc_attitude_source =
                 (if get_attitude_source (self st) then Dialect UALBERTA_NAV_FILTER
                  else Dialect UALBERTA_AHRS),
               status_engine_rpm = switch_engine_rpm env,
               status_rotor_rpm = switch_main_rotor_rpm env,
               status_collective = main_collective env,
               qgc_trajectory = trajectory_code (trajectory_type env)\<rparr>]
      else []) @
     (if param_recv (link st)
      then map (\<lambda>(i, p). PARAM_VALUE
                  \<lparr>param_system = uasId (link st), param_component = getCompID p mod 256,
                   param_id = getParamID p, param_float = getValue p,
                   param_count =
                     int (length (control_parameters env) + length (helicopter_parameters env)),
                   param_index = int i\<rparr>)
             (enumerate 0 (control_parameters env @ helicopter_parameters env))
      else []) @
     (if rc
      then [RC_CHANNELS_RAW
              [switch_raw env 0, switch_raw env 1, switch_raw env 2, switch_raw env 3,
               switch_raw env 4, switch_raw env 5, switch_raw env 6, switch_raw env 7],
            RC_CHANNELS_SCALED
              [scaled_to_int16 env (rctrans_scaled env AILERON),
               scaled_to_int16 env (rctrans_scaled env ELEVATOR),
               scaled_to_int16 env (rctrans_scaled env THROTTLE),
               scaled_to_int16 env (rctrans_scaled env RUDDER),
               scaled_to_int16 env (rctrans_scaled env GYRO),
               scaled_to_int16 env (rctrans_scaled env PITCH), 0, 0]]
      else []) @
     (if eff
      then [UALBERTA_CONTROL_EFFORT (uasId (link st))
              (map (narrow_to_float env) (control_effort env))]
      else []) @
     map (\<lambda>p. PARAM_VALUE
            \<lparr>param_system = uasId (link st), param_component = getCompID p,
             param_id = getParamID p, param_float = getValue p,
             param_count = 1, param_index = - 1\<rparr>) (requested_params (link st)) @
     (if requested_rc_calibration (link st)
      then [RADIO_CALIBRATION (uasId (link st)) (radio_calibration env)] else []) @
     map DRIVER_MESSAGE
       (concat (map (\<lambda>d. d (uasId (link st)) send_rate (count st)) (drivers env))) @
     (case message_queue (self st) of
        [] \<Rightarrow> []
      | message # rest \<Rightarrow>
          [STATUSTEXT (uasId (link st)) (if prefix ''Critical'' message then 255 else 0)
             (resize 50 message)])"
  by (cases "message_queue (self st)")
     (simp_all add: pushed_def send_heartbeat_def send_status_def Let_def send_param_eq
        send_rc_channels_eq send_control_effort_eq send_requested_params_eq
        send_rc_calibration_def send_driver_messages_eq send_console_message_def
        starts_with_Critical
      split del: if_split cong: if_cong)

lemma filter_take_le: "length (filter P (take n xs)) \<le> length (filter P xs)"
proof -
  have "length (filter P xs) = length (filter P (take n xs @ drop n xs))" by simp
  also have "\<dots> = length (filter P (take n xs)) + length (filter P (drop n xs))"
    by (simp only: filter_append length_append)
  finally show ?thesis by simp
qed

lemma sorted_rank_take: "sorted (map f xs) \<Longrightarrow> sorted (map f (take n xs))"
  by (simp add: take_map [symmetric] sorted_wrt_take)

text \<open>
  C4, as the code has it. In every pass whose rate tests are defined, whatever the queue
  held before and whichever streams are active, the pass pushes behind the queued
  packets exactly these, in this order: the heartbeat and the status packet when the
  status stream is due; one packet per parameter when a dump was requested; the raw and
  the scaled RC channels when that stream is due; the control effort when that stream is
  due; one reply per requested parameter; the calibration packet when it was requested;
  the messages of the drivers, driver by driver; and the packet of the oldest console
  text when the mailbox is not empty. That is the fixed precedence of the streams, with at
  most one console packet. The flush sends the queue from the front: what it sends is a
  prefix of the queue in queue order, what it leaves is the rest, and without a fault it
  sends all of it. When the pass starts with an empty queue, the packets sent in it are
  a prefix of the pushed ones: they are in the precedence order and hold at most one
  console packet.
\<close>

theorem pass_pushes_in_precedence_order:
  assumes "rates_defined st"
  shows "\<exists>hs rc eff pk st1 n st'.
     should_run (heartbeat_rate (link st)) send_rate (count st) = Some hs \<and>
     should_run (rc_channel_rate (link st)) send_rate (count st) = Some rc \<and>
     should_run (control_output_rate (link st)) send_rate (count st) = Some eff \<and>
     pk =
       (if hs
        then [HEARTBEAT,
              UALBERTA_SYS_STATUS
                \<lparr>status_system = uasId (link st),
                 qgc_servo_source = servo_source_code (get_servo_source (self st)),
                 qgc_filter_state = filter_state_code (get_filter_state (self st)),
                 qgc_pilot_mode =
                   pilot_mode_code
                     (if get_pilot_mode (self st) = NUM_PILOT_MODES then switch_pilot_mode env
                      else get_pilot_mode (self st)),
                 qgc_control_mode = control_mode_code (get_control_mode (self st)),
                 qgc_attitude_source =
                   (if get_attitude_source (self st) then Dialect UALBERTA_NAV_FILTER
                    else Dialect UALBERTA_AHRS),
                 status_engine_rpm = switch_engine_rpm env,
                 status_rotor_rpm = switch_main_rotor_rpm env,
                 status_collective = main_collective env,
                 qgc_trajectory = trajectory_code (trajectory_type env)\<rparr>]
        else []) @
       (if param_recv (link st)
        then map (\<lambda>(i, p). PARAM_VALUE
                    \<lparr>param_system = uasId (link st), param_component = getCompID p mod 256,
                     param_id = getParamID p, param_float = getValue p,
                     param_count =
                       int (length (control_parameters env) +
                            length (helicopter_parameters env)),
                     param_index = int i\<rparr>)
               (enumerate 0 (control_parameters env @ helicopter_parameters env))
        else []) @
       (if rc
        then [RC_CHANNELS_RAW
                [switch_raw env 0, switch_raw env 1, switch_raw env 2, switch_raw env 3,
                 switch_raw env 4, switch_raw env 5, switch_raw env 6, switch_raw env 7],
              RC_CHANNELS_SCALED
                [scaled_to_int16 env (rctrans_scaled env AILERON),
                 scaled_to_int16 env (rctrans_scaled env ELEVATOR),
                 scaled_to_int16 env (rctrans_scaled env THROTTLE),
                 scaled_to_int16 env (rctrans_scaled env RUDDER),
                 scaled_to_int16 env (rctrans_scaled env GYRO),
                 scaled_to_int16 env (rctrans_scaled env PITCH), 0, 0]]
        else []) @
       (if eff
        then [UALBERTA_CONTROL_EFFORT (uasId (link st))
                (map (narrow_to_float env) (control_effort env))]
        else []) @
       map (\<lambda>p. PARAM_VALUE
              \<lparr>param_system = uasId (link st), param_component = getCompID p,
               param_id = getParamID p, param_float = getValue p,
               param_count = 1, param_index = - 1\<rparr>) (requested_params (link st)) @
       (if requested_rc_calibration (link st)
        then [RADIO_CALIBRATION (uasId (link st)) (radio_calibration env)] else []) @
       map DRIVER_MESSAGE
         (concat (map (\<lambda>d. d (uasId (link st)) send_rate (count st)) (drivers env))) @
       (case message_queue (self st) of
          [] \<Rightarrow> []
        | message # rest \<Rightarrow>
            [STATUSTEXT (uasId (link st)) (if prefix ''Critical'' message then 255 else 0)
               (resize 50 message)]) \<and>
     enqueue env st = Inr st1 \<and> sendq st1 = sendq st @ pk \<and>
     sorted (map stream_rank pk) \<and>
     length (filter (\<lambda>p. stream_rank p = 7) pk) \<le> 1 \<and>
     send_iteration env st = Inr st' \<and>
     n \<le> length (sendq st @ pk) \<and>
     sent (socket (link st')) = sent (socket (link st)) @ take n (sendq st @ pk) \<and>
     sendq st' = drop n (sendq st @ pk) \<and>
     (fault_free st \<longrightarrow> n = length (sendq st @ pk)) \<and>
     (sendq st = [] \<longrightarrow>
        sent (socket (link st')) = sent (socket (link st)) @ take n pk \<and>
        sorted (map stream_rank (take n pk)) \<and>
        length (filter (\<lambda>p. stream_rank p = 7) (take n pk)) \<le> 1)"
proof -
  from assms have c: "0 \<le> count st" and b: "0 < send_rate"
    and r: "- send_rate \<le> heartbeat_rate (link st)" "- send_rate \<le> rc_channel_rate (link st)"
           "- send_rate \<le> control_output_rate (link st)"
    by (simp_all add: rates_defined_def send_rate_def)
  from should_run_total [OF b r(1) c] obtain hs where
    1: "should_run (heartbeat_rate (link st)) send_rate (count st) = Some hs" by blast
  from should_run_total [OF b r(2) c] obtain rc where
    2: "should_run (rc_channel_rate (link st)) send_rate (count st) = Some rc" by blast
  from should_run_total [OF b r(3) c] obtain eff where
    3: "should_run (control_output_rate (link st)) send_rate (count st) = Some eff" by blast
  define pk where "pk = pushed env st hs rc eff"
  define st1 where
    "st1 = st\<lparr>self := (self st)\<lparr>message_queue := tl (message_queue (self st))\<rparr>,
            sendq := sendq st @ pk,
            link := (link st)\<lparr>param_recv := False, requested_params := [],
                                  requested_rc_calibration := False\<rparr>\<rparr>"
  have e: "enqueue env st = Inr st1"
    unfolding st1_def pk_def by (rule enqueue_eq [OF 1 2 3])
  have q1: "sendq st1 = sendq st @ pk" and so: "socket (link st1) = socket (link st)"
    by (simp_all add: st1_def)
  define st' where "st' = (snd (flush st1))\<lparr>count := count (snd (flush st1)) + 1\<rparr>"
  have i: "send_iteration env st = Inr st'"
    unfolding st'_def by (rule send_iteration_eq [OF e])
  from flush_fifo [of st1] obtain n where
    n: "n \<le> length (sendq st1)"
       "sent (socket (link (snd (flush st1)))) = sent (socket (link st1)) @ take n (sendq st1)"
       "sendq (snd (flush st1)) = drop n (sendq st1)" by blast
  have all: "fault_free st \<longrightarrow> n = length (sendq st @ pk)"
  proof
    assume "fault_free st"
    with so have "fault_free st1" by (simp add: fault_free_def)
    from flush_ok [OF this] n(2) have "take n (sendq st1) = sendq st1" by simp
    with n(1) show "n = length (sendq st @ pk)" unfolding q1 [symmetric]
      by (metis length_take min.absorb2)
  qed
  have srt: "sorted (map stream_rank pk)" unfolding pk_def by (rule pushed_sorted)
  have one: "length (filter (\<lambda>p. stream_rank p = 7) pk) \<le> 1"
    unfolding pk_def by (rule pushed_one_console)
  have snt: "sent (socket (link st')) = sent (socket (link st)) @ take n (sendq st @ pk)"
    and rem: "sendq st' = drop n (sendq st @ pk)" and nle: "n \<le> length (sendq st @ pk)"
    using n unfolding st'_def q1 so by simp_all
  have emp: "sendq st = [] \<longrightarrow>
        sent (socket (link st')) = sent (socket (link st)) @ take n pk \<and>
        sorted (map stream_rank (take n pk)) \<and>
        length (filter (\<lambda>p. stream_rank p = 7) (take n pk)) \<le> 1"
  proof
    assume em: "sendq st = []"
    have "length (filter (\<lambda>p. stream_rank p = 7) (take n pk)) \<le>
          length (filter (\<lambda>p. stream_rank p = 7) pk)" by (rule filter_take_le)
    with one have "length (filter (\<lambda>p. stream_rank p = 7) (take n pk)) \<le> 1" by simp
    moreover have "sorted (map stream_rank (take n pk))" using srt by (rule sorted_rank_take)
    moreover have "sent (socket (link st')) = sent (socket (link st)) @ take n pk"
      using snt em by simp
    ultimately show "sent (socket (link st')) = sent (socket (link st)) @ take n pk \<and>
        sorted (map stream_rank (take n pk)) \<and>
        length (filter (\<lambda>p. stream_rank p = 7) (take n pk)) \<le> 1" by blast
  qed
  note px = pushed_explicit [of env st hs rc eff, folded pk_def]
  show ?thesis
    apply (rule exI [of _ hs], rule exI [of _ rc], rule exI [of _ eff], rule exI [of _ pk])
    apply (rule exI [of _ st1], rule exI [of _ n], rule exI [of _ st'])
    apply (intro conjI)
    apply (rule 1, rule 2, rule 3, rule px, rule e, rule q1, rule srt, rule one, rule i)
    apply (rule nle, rule snt, rule rem, rule all, rule emp)
    done
qed

lemma busy_conditions:
  "fault_free busy_dispatch" "sendq busy_dispatch = []" "rates_defined busy_dispatch"
  by (simp_all add: busy_dispatch_eq fault_free_def rates_defined_def scenario_link_def
        send_rate_def)

text \<open>C4 for a pass that pushes the heartbeat, the status and a console packet.\<close>

theorem pass_pushes_in_precedence_order_witness:
  "rates_defined busy_dispatch \<and> fault_free busy_dispatch \<and> sendq busy_dispatch = [] \<and>
   (\<exists>st'. send_iteration scenario_producers busy_dispatch = Inr st' \<and>
      sent (socket (link st')) =
        [HEARTBEAT, scenario_status,
         STATUSTEXT 100 255 (resize 50 ''Critical: overheat'')] \<and>
      sorted (map stream_rank (sent (socket (link st')))))"
proof -
  note c = busy_conditions
  from pass_pushes_in_precedence_order [OF c(3), of scenario_producers]
  obtain hs rc eff pk st1 n st' where
    h: "should_run (heartbeat_rate (link busy_dispatch)) send_rate (count busy_dispatch) = Some hs"
       "should_run (rc_channel_rate (link busy_dispatch)) send_rate (count busy_dispatch) = Some rc"
       "should_run (control_output_rate (link busy_dispatch)) send_rate (count busy_dispatch)
          = Some eff"
    and e: "enqueue scenario_producers busy_dispatch = Inr st1"
    and q: "sendq st1 = sendq busy_dispatch @ pk"
    and i: "send_iteration scenario_producers busy_dispatch = Inr st'"
    and all: "fault_free busy_dispatch \<longrightarrow> n = length (sendq busy_dispatch @ pk)"
    and emp: "sendq busy_dispatch = [] \<longrightarrow>
        sent (socket (link st')) = sent (socket (link busy_dispatch)) @ take n pk \<and>
        sorted (map stream_rank (take n pk)) \<and>
        length (filter (\<lambda>p. stream_rank p = 7) (take n pk)) \<le> 1"
    by blast
  from e q have pk: "pk = [HEARTBEAT, scenario_status,
         STATUSTEXT 100 255 (resize 50 ''Critical: overheat'')]"
    by (auto simp: busy_enqueue c(2))
  from all c have n: "n = length pk" by simp
  from emp c(2) n have
    "sent (socket (link st')) = sent (socket (link busy_dispatch)) @ pk"
    "sorted (map stream_rank pk)" by simp_all
  then have s: "sent (socket (link st')) = pk" "sorted (map stream_rank (sent (socket (link st'))))"
    by (simp_all add: busy_dispatch_eq scenario_link_def)
  from c i s pk show ?thesis by blast
qed

text \<open>
  The claim C4 as it is worded fails: when the first send of a pass throws, nothing is
  sent in that pass, and the next pass sends the three packets left over before its own
  three. The packets sent in that one pass have the ranks 0, 0, 7, 0, 0, 7: they are not in
  precedence order, and two of them are console packets.
\<close>

theorem faulted_pass_precedence_counterexample:
  "rates_defined faulted_pass_dispatch \<and>
   sent (socket (link (projr (run [Iteration scenario_producers] faulted_pass_dispatch)))) = [] \<and>
   \<not> isl (run [Iteration scenario_producers, Iteration scenario_producers]
            faulted_pass_dispatch) \<and>
   map stream_rank
     (sent (socket (link (projr
        (run [Iteration scenario_producers, Iteration scenario_producers]
           faulted_pass_dispatch))))) = [0, 0, 7, 0, 0, 7]"
proof -
  have a: "rates_defined faulted_pass_dispatch"
    by (simp add: faulted_pass_dispatch_def busy_dispatch_eq rates_defined_def scenario_link_def
          send_rate_def)
  have b: "\<not> isl (run [Iteration scenario_producers, Iteration scenario_producers]
            faulted_pass_dispatch)"
    unfolding faulted_two_passes by simp
  have c: "map stream_rank
     (sent (socket (link (projr
        (run [Iteration scenario_producers, Iteration scenario_producers]
           faulted_pass_dispatch))))) = [0, 0, 7, 0, 0, 7]"
    unfolding faulted_two_passes by (simp add: scenario_status_def)
  from a faulted_first_pass b c show ?thesis by (intro conjI)
qed

text \<open>
  C10 for a loop whose passes push three packets: a pass and a run without a fault, and
  a pass whose first send throws.
\<close>

theorem flush_leaves_queue_empty_witness:
  "(fault_free busy_dispatch \<and> sendq busy_dispatch = [] \<and> rates_defined busy_dispatch) \<and>
   (\<exists>st1 st'. enqueue scenario_producers busy_dispatch = Inr st1 \<and>
      sendq st1 = [HEARTBEAT, scenario_status,
                   STATUSTEXT 100 255 (resize 50 ''Critical: overheat'')] \<and>
      fst (flush_loop (socket (link st1)) (sendq st1)) = None \<and>
      sendq (snd (flush st1)) = [] \<and>
      send_iteration scenario_producers busy_dispatch = Inr st' \<and> sendq st' = [] \<and>
      sent (socket (link st')) =
        [HEARTBEAT, scenario_status,
         STATUSTEXT 100 255 (resize 50 ''Critical: overheat'')]) \<and>
   (\<exists>st0 st'.
      run ([Console ''Critical: overheat''] @ Iteration scenario_producers #
           [Iteration scenario_producers]) busy_dispatch = Inr st' \<and>
      run [Console ''Critical: overheat''] busy_dispatch = Inr st0 \<and> sendq st0 = [] \<and>
      sendq st' = []) \<and>
   script (socket (link faulted_pass_dispatch)) =
     replicate 0 None @ Some (System_error ''Network is unreachable'') # [] \<and>
   (\<exists>st1 st'. enqueue scenario_producers faulted_pass_dispatch = Inr st1 \<and>
      0 < length (sendq st1) \<and>
      send_iteration scenario_producers faulted_pass_dispatch = Inr st' \<and>
      sendq st' =
        [HEARTBEAT, scenario_status,
         STATUSTEXT 100 255 (resize 50 ''Critical: overheat'')])"
proof -
  let ?P = scenario_producers
  let ?q = "[HEARTBEAT, scenario_status, STATUSTEXT 100 255 (resize 50 ''Critical: overheat'')]"
  let ?e = "System_error ''Network is unreachable''"
  note c = busy_conditions
  have w2: "\<exists>st1 st'. enqueue ?P busy_dispatch = Inr st1 \<and> sendq st1 = ?q \<and>
      fst (flush_loop (socket (link st1)) (sendq st1)) = None \<and>
      sendq (snd (flush st1)) = [] \<and>
      send_iteration ?P busy_dispatch = Inr st' \<and> sendq st' = [] \<and>
      sent (socket (link st')) = ?q"
  proof -
    from flush_leaves_queue_empty
      [where st = busy_dispatch and env = ?P, THEN conjunct2, THEN conjunct1] c
    obtain st1 st' where
      e: "enqueue ?P busy_dispatch = Inr st1"
      and i: "send_iteration ?P busy_dispatch = Inr st'" "sendq st' = []"
      and s: "sent (socket (link st')) = sent (socket (link busy_dispatch)) @ sendq st1"
      by blast
    from e have q: "sendq st1 = ?q" and so: "socket (link st1) = socket (link busy_dispatch)"
      by (auto simp: busy_enqueue)
    have ok: "fst (flush_loop (socket (link st1)) (sendq st1)) = None"
      by (simp add: q so busy_dispatch_eq scenario_link_def send_to_def)
    from flush_leaves_queue_empty [where st = st1, THEN conjunct1] ok
    have f: "sendq (snd (flush st1)) = []" by blast
    from s q have "sent (socket (link st')) = ?q"
      by (simp add: busy_dispatch_eq scenario_link_def)
    with e q ok f i show ?thesis by blast
  qed
  have w3: "\<exists>st0 st'.
      run ([Console ''Critical: overheat''] @ Iteration ?P # [Iteration ?P]) busy_dispatch
        = Inr st' \<and>
      run [Console ''Critical: overheat''] busy_dispatch = Inr st0 \<and> sendq st0 = [] \<and>
      sendq st' = []"
  proof -
    have "\<exists>st'. run ([Console ''Critical: overheat''] @ Iteration ?P # [Iteration ?P])
                   busy_dispatch = Inr st'"
      by (simp add: busy_dispatch_eq scenario_link_def scenario_producers_def
            message_queue_push_def pass_defs)
    then obtain st' where
      r: "run ([Console ''Critical: overheat''] @ Iteration ?P # [Iteration ?P]) busy_dispatch
            = Inr st'" by blast
    from flush_leaves_queue_empty
      [where st = busy_dispatch and ?es1.0 = "[Console ''Critical: overheat'']"
         and env = ?P and ?es2.0 = "[Iteration ?P]" and st' = st',
       THEN conjunct2, THEN conjunct2, THEN conjunct1] c(1,2) r
    show ?thesis by blast
  qed
  have s4: "script (socket (link faulted_pass_dispatch)) = replicate 0 None @ Some ?e # []"
    by (simp add: faulted_pass_dispatch_def)
  have w4: "\<exists>st1 st'. enqueue ?P faulted_pass_dispatch = Inr st1 \<and>
      0 < length (sendq st1) \<and>
      send_iteration ?P faulted_pass_dispatch = Inr st' \<and> sendq st' = ?q"
  proof -
    let ?st1 = "faulted_pass_dispatch
       \<lparr>self := (self busy_dispatch)\<lparr>message_queue := [''Warning: low battery'']\<rparr>,
        sendq := ?q\<rparr>"
    have e: "enqueue ?P faulted_pass_dispatch = Inr ?st1" by (rule faulted_enqueue)
    have l: "0 < length (sendq ?st1)" by simp
    from flush_leaves_queue_empty
      [where st = faulted_pass_dispatch and env = ?P and j = 0 and e = ?e
         and rest = "[]" and ?st1.0 = ?st1,
       THEN conjunct2, THEN conjunct2, THEN conjunct2] s4 e l
    obtain st' where "send_iteration ?P faulted_pass_dispatch = Inr st'"
      "sendq st' = drop 0 (sendq ?st1)" by blast
    with e l show ?thesis by auto
  qed
  from c w2 w3 s4 w4 show ?thesis by blast
qed

text \<open>
  C2 at an object whose cached pilot mode is set, for two different answers of the
  pilot-mode producer.
\<close>

theorem send_status_pilot_mode_query_witness:
  "get_pilot_mode (objects scenario_memory 0\<lparr>pilot_mode := PILOT_MANUAL\<rparr>) \<noteq> NUM_PILOT_MODES \<and>
   switch_pilot_mode (scenario_producers\<lparr>switch_pilot_mode := NUM_PILOT_MODES\<rparr>) \<noteq>
     switch_pilot_mode scenario_producers \<and>
   send_status (scenario_producers\<lparr>switch_pilot_mode := NUM_PILOT_MODES\<rparr>) scenario_link
     (objects scenario_memory 0\<lparr>pilot_mode := PILOT_MANUAL\<rparr>) [] =
   send_status scenario_producers scenario_link
     (objects scenario_memory 0\<lparr>pilot_mode := PILOT_MANUAL\<rparr>) []"
proof -
  have h: "get_pilot_mode (objects scenario_memory 0\<lparr>pilot_mode := PILOT_MANUAL\<rparr>) \<noteq> NUM_PILOT_MODES"
    by (simp add: get_pilot_mode_def)
  have d: "switch_pilot_mode (scenario_producers\<lparr>switch_pilot_mode := NUM_PILOT_MODES\<rparr>) \<noteq>
     switch_pilot_mode scenario_producers"
    by (simp add: scenario_producers_def)
  from send_status_pilot_mode_query
    [of scenario_producers scenario_link "objects scenario_memory 0\<lparr>pilot_mode := PILOT_MANUAL\<rparr>"
        "[]" NUM_PILOT_MODES, THEN conjunct2, THEN conjunct1, THEN mp, OF h] h d
  show ?thesis by blast
qed

end
